theory Spec2Isabelle
  imports Main "HOL-Library.AList"
begin

chapter \<open>The program\<close>

section \<open>JavaScript values\<close>

text \<open>
  A JavaScript string is modelled as a \<^typ>\<open>string\<close>, one \<^typ>\<open>char\<close> per code unit
  (code units up to 255). The values that \<^verbatim>\<open>JSON.parse\<close> and \<^verbatim>\<open>res.json()\<close> return are
  modelled by \<open>json\<close>; numbers are the integers (the registry's \<^verbatim>\<open>waitDays\<close> and the
  marketplace's prices are integers). \<open>jsnum\<close> is the result of \<^verbatim>\<open>Number(...)\<close>.
\<close>

datatype jsnum = Num int | NaN

datatype json =
    JNull
  | JBool bool
  | JNum int
  | JStr string
  | JArr "json list"
  | JObj "(string \<times> json) list"

text \<open>
  A binary64 number in full: \<open>Dyadic m e\<close> is the number \<open>m * 2^e\<close>, and the other three
  are the two infinities and NaN. The \<^verbatim>\<open>retry-after\<close> header of a response is read in this
  type, since the header of a server may hold any text.
\<close>

datatype double = Dyadic int int | PosInf | NegInf | NotNumber

text \<open>
  The conversions \<^verbatim>\<open>String(v)\<close> of a value that is not a string and \<^verbatim>\<open>Number(v)\<close> of a
  value that is not a number follow the language's coercion tables (number formatting,
  numeric parsing of strings). They are parameters of the model: every theorem below holds
  for any behaviour of these conversions. \<open>string_to_double\<close> is \<^verbatim>\<open>Number(s)\<close> of a string
  with its full range of results (a binary64 number, whole or not, an infinity, or NaN).
\<close>

record coercions =
  to_str :: "json \<Rightarrow> string"
  to_num :: "json \<Rightarrow> jsnum"
  string_to_double :: "string \<Rightarrow> double"

text \<open>\<^verbatim>\<open>String(v)\<close>.\<close>

definition js_String :: "coercions \<Rightarrow> json \<Rightarrow> string" where
  "js_String cv v = (case v of JStr s \<Rightarrow> s | _ \<Rightarrow> to_str cv v)"

text \<open>\<^verbatim>\<open>Number(v)\<close>; \<open>None\<close> is \<^verbatim>\<open>undefined\<close>, and \<^verbatim>\<open>Number(undefined)\<close> is NaN.\<close>

definition js_Number :: "coercions \<Rightarrow> json option \<Rightarrow> jsnum" where
  "js_Number cv v =
     (case v of None \<Rightarrow> NaN | Some (JNum n) \<Rightarrow> Num n | Some w \<Rightarrow> to_num cv w)"

text \<open>
  \<^verbatim>\<open>v.key\<close> for a value that is neither \<^verbatim>\<open>null\<close> nor \<^verbatim>\<open>undefined\<close>: the field of an object,
  \<^verbatim>\<open>undefined\<close> on any other value (none of the keys the program reads is a property of
  an array, a number or a boolean, and the program reads no key of a string).
\<close>

definition get_prop :: "json \<Rightarrow> string \<Rightarrow> json option" where
  "get_prop v key = (case v of JObj kvs \<Rightarrow> map_of kvs key | _ \<Rightarrow> None)"

text \<open>\<^verbatim>\<open>v?.key\<close>: \<^verbatim>\<open>undefined\<close> when \<open>v\<close> is \<^verbatim>\<open>null\<close>.\<close>

definition opt_prop :: "json \<Rightarrow> string \<Rightarrow> json option" where
  "opt_prop v key = (case v of JNull \<Rightarrow> None | _ \<Rightarrow> get_prop v key)"

text \<open>\<^verbatim>\<open>a ?? b\<close>: \<open>b\<close> when \<open>a\<close> is \<^verbatim>\<open>undefined\<close> or \<^verbatim>\<open>null\<close>.\<close>

definition coalesce :: "json option \<Rightarrow> json option \<Rightarrow> json option" where
  "coalesce a b = (case a of None \<Rightarrow> b | Some JNull \<Rightarrow> b | Some v \<Rightarrow> Some v)"

text \<open>Truthiness of a value: what \<^verbatim>\<open>if (v)\<close> and \<^verbatim>\<open>!v\<close> test.\<close>

definition js_truthy :: "json \<Rightarrow> bool" where
  "js_truthy v =
     (case v of JNull \<Rightarrow> False | JBool b \<Rightarrow> b | JNum n \<Rightarrow> n \<noteq> 0 | JStr s \<Rightarrow> s \<noteq> []
      | JArr _ \<Rightarrow> True | JObj _ \<Rightarrow> True)"

text \<open>
  \<^verbatim>\<open>s.trim()\<close> removes white space at both ends; the white space among the code units up
  to 255 is TAB, LF, VT, FF, CR, space and the no-break space.
\<close>

definition js_whitespace :: "char \<Rightarrow> bool" where
  "js_whitespace c = (of_char c \<in> {9, 10, 11, 12, 13, 32, 160 :: nat})"

definition js_trim :: "string \<Rightarrow> string" where
  "js_trim s = rev (dropWhile js_whitespace (rev (dropWhile js_whitespace s)))"

section \<open>The two link patterns\<close>

text \<open>
  Both regular expressions carry the \<^verbatim>\<open>i\<close> flag and no \<^verbatim>\<open>u\<close> flag: two characters match
  when their canonical forms (the upper-case mapping) are equal, and a character from
  128 on is never canonicalised to an ASCII one. Every character of both patterns is ASCII,
  so only the ASCII letters need their upper-case form here; clearing bit 5 of a
  lower-case ASCII letter subtracts 32.
\<close>

definition canonicalize :: "char \<Rightarrow> char" where
  "canonicalize c =
     (let n = of_char c :: nat in
      if 97 \<le> n \<and> n \<le> 122
      then (case c of Char b0 b1 b2 b3 b4 b5 b6 b7 \<Rightarrow> Char b0 b1 b2 b3 b4 False b6 b7)
      else c)"

text \<open>\<^verbatim>\<open>\d\<close> matches the ten ASCII digits.\<close>

definition is_digit :: "char \<Rightarrow> bool" where
  "is_digit c = (let n = of_char c :: nat in 48 \<le> n \<and> n \<le> 57)"

text \<open>
  Matching a literal piece of a pattern at the start of the input: the rest of the input
  after it, or \<open>None\<close>.
\<close>

fun match_literal :: "string \<Rightarrow> string \<Rightarrow> string option" where
  "match_literal [] s = Some s"
| "match_literal (p # ps) [] = None"
| "match_literal (p # ps) (c # cs) =
     (if canonicalize c = canonicalize p then match_literal ps cs else None)"

text \<open>\<^verbatim>\<open>(\d+)\<close> is greedy and nothing follows it in either pattern: the longest run of digits,
  which must not be empty.\<close>

definition match_digits :: "string \<Rightarrow> string option" where
  "match_digits s = (let d = takeWhile is_digit s in if d = [] then None else Some d)"

text \<open>
  \<^verbatim>\<open>/roblox\.com\/(communities|groups)\/(\d+)/i\<close> tried at the start of the input; the
  result is the second group. The alternatives are tried in order, the second one when
  the first one or what follows it fails.
\<close>

definition match_group_tail :: "string \<Rightarrow> string option" where
  "match_group_tail s =
     (case match_literal ''/'' s of None \<Rightarrow> None | Some r \<Rightarrow> match_digits r)"

definition match_group :: "string \<Rightarrow> string option" where
  "match_group s =
     (case match_literal ''roblox.com/'' s of
        None \<Rightarrow> None
      | Some r \<Rightarrow>
          (case (case match_literal ''communities'' r of
                   None \<Rightarrow> None | Some r1 \<Rightarrow> match_group_tail r1) of
             Some d \<Rightarrow> Some d
           | None \<Rightarrow>
               (case match_literal ''groups'' r of
                  None \<Rightarrow> None | Some r1 \<Rightarrow> match_group_tail r1)))"

text \<open>
  \<^verbatim>\<open>
  function extractGroupId(link) {
    const m = link.match(/roblox\.com\/(communities|groups)\/(\d+)/i);
    return m ? m[2] : null;
  }
  \<close>
  \<^verbatim>\<open>match\<close> without the \<^verbatim>\<open>g\<close> flag returns the leftmost match: the pattern is tried at
  each position from the left.
\<close>

fun extractGroupId :: "string \<Rightarrow> string option" where
  "extractGroupId [] = None"
| "extractGroupId (c # cs) =
     (case match_group (c # cs) of Some d \<Rightarrow> Some d | None \<Rightarrow> extractGroupId cs)"

text \<open>\<^verbatim>\<open>/roblox\.com\/game-pass\/(\d+)/gi\<close> tried at the start of the input; the result is
  the first group.\<close>

definition match_gamepass :: "string \<Rightarrow> string option" where
  "match_gamepass s =
     (case match_literal ''roblox.com/game-pass/'' s of
        None \<Rightarrow> None
      | Some r \<Rightarrow> match_digits r)"

text \<open>
  \<^verbatim>\<open>String(text).matchAll(...)\<close> with the \<^verbatim>\<open>g\<close> flag: the pattern is tried at each position
  from the left, and after a match the search resumes at the end of the match
  (\<^verbatim>\<open>lastIndex\<close>). \<open>skip\<close> is the number of characters still to pass before that
  position is reached. The result lists the first group of every match found.
\<close>

fun matchAll_gamepass :: "nat \<Rightarrow> string \<Rightarrow> string list" where
  "matchAll_gamepass skip [] = []"
| "matchAll_gamepass skip (c # cs) =
     (if 0 < skip then matchAll_gamepass (skip - 1) cs
      else (case match_gamepass (c # cs) of
              None \<Rightarrow> matchAll_gamepass 0 cs
            | Some d \<Rightarrow>
                d # matchAll_gamepass (length ''roblox.com/game-pass/'' + length d - 1) cs))"

text \<open>
  \<^verbatim>\<open>[...new Set(ids)]\<close>: a Set keeps its elements in insertion order, and adding an
  element it already holds changes nothing.
\<close>

definition Set_add :: "'a list \<Rightarrow> 'a \<Rightarrow> 'a list" where
  "Set_add s x = (if x \<in> set s then s else s @ [x])"

definition new_Set :: "'a list \<Rightarrow> 'a list" where
  "new_Set xs = foldl Set_add [] xs"

text \<open>
  \<^verbatim>\<open>
  function extractGamePassIds(text) {
    if (!text) return [];
    const matches = [...String(text).matchAll(/roblox\.com\/game-pass\/(\d+)/gi)];
    const ids = matches.map((m) => m[1]);
    return [...new Set(ids)];
  }
  \<close>
  \<open>None\<close> is a missing text (\<^verbatim>\<open>null\<close> or \<^verbatim>\<open>undefined\<close>); the empty string is falsy too.
\<close>

definition extractGamePassIds :: "string option \<Rightarrow> string list" where
  "extractGamePassIds text =
     (case text of
        None \<Rightarrow> []
      | Some t \<Rightarrow> if t = [] then [] else new_Set (matchAll_gamepass 0 t))"

section \<open>The group registry\<close>

text \<open>
  \<^verbatim>\<open>groups.json\<close> holds a JSON object; \<open>None\<close> is a store that does not exist yet. An
  object is the list of its fields in insertion order.
\<close>

type_synonym db = "(string \<times> json) list"

definition initial :: db where
  "initial =
     [(''groups'', JArr [JObj
        [(''name'', JStr ''Nexus Arc''),
         (''link'', JStr ''https://www.roblox.com/communities/14638702/Nexus-Arc#!/about''),
         (''waitDays'', JNum 14)]])]"

text \<open>
  \<^verbatim>\<open>
  function loadDB() {
    if (!fs.existsSync(DB_PATH)) {
      const initial = { groups: [ { name: "Nexus Arc", link: "...", waitDays: 14 } ] };
      fs.writeFileSync(DB_PATH, JSON.stringify(initial, null, 2));
      return initial;
    }
    return JSON.parse(fs.readFileSync(DB_PATH, "utf8"));
  }
  function saveDB(db) { fs.writeFileSync(DB_PATH, JSON.stringify(db, null, 2)); }
  \<close>
  Both return the store afterwards.
\<close>

definition loadDB :: "db option \<Rightarrow> db \<times> db option" where
  "loadDB file = (case file of None \<Rightarrow> (initial, Some initial) | Some d \<Rightarrow> (d, Some d))"

definition saveDB :: "db \<Rightarrow> db option \<Rightarrow> db option" where
  "saveDB d file = Some d"

text \<open>An entry \<^verbatim>\<open>{ name, link, waitDays }\<close> of the normalised registry.\<close>

record group =
  name :: string
  link :: string
  waitDays :: int

definition group_json :: "group \<Rightarrow> json" where
  "group_json g =
     JObj [(''name'', JStr (name g)), (''link'', JStr (link g)), (''waitDays'', JNum (waitDays g))]"

text \<open>
  The function mapped over the entries by \<^verbatim>\<open>normalizeGroups\<close>:
  \<^verbatim>\<open>
  (g) => {
    if (typeof g === "string") {
      const gid = extractGroupId(g);
      return { name: gid ? `Group ${gid}` : "Group", link: g, waitDays: 14 };
    }
    return {
      name: String(g?.name ?? "Group"),
      link: String(g?.link ?? ""),
      waitDays: Number.isFinite(Number(g?.waitDays)) ? Number(g.waitDays) : 14,
    };
  }
  \<close>
\<close>

definition normalize_entry :: "coercions \<Rightarrow> json \<Rightarrow> group" where
  "normalize_entry cv g =
     (case g of
        JStr s \<Rightarrow>
          \<lparr>name = (case extractGroupId s of Some gid \<Rightarrow> ''Group '' @ gid | None \<Rightarrow> ''Group''),
           link = s,
           waitDays = 14\<rparr>
      | _ \<Rightarrow>
          \<lparr>name = (case coalesce (opt_prop g ''name'') (Some (JStr ''Group'')) of
                     Some v \<Rightarrow> js_String cv v | None \<Rightarrow> ''Group''),
           link = (case coalesce (opt_prop g ''link'') (Some (JStr [])) of
                     Some v \<Rightarrow> js_String cv v | None \<Rightarrow> []),
           waitDays = (case js_Number cv (opt_prop g ''waitDays'') of
                         Num n \<Rightarrow> n | NaN \<Rightarrow> 14)\<rparr>)"

text \<open>
  \<^verbatim>\<open>
  const groups = Array.isArray(db?.groups) ? db.groups : [];
  const normalized = groups.map(...).filter((g) => g.link);
  \<close>
\<close>

definition normalized :: "coercions \<Rightarrow> db \<Rightarrow> group list" where
  "normalized cv d =
     (let groups = (case map_of d ''groups'' of Some (JArr gs) \<Rightarrow> gs | _ \<Rightarrow> [])
      in filter (\<lambda>g. link g \<noteq> []) (map (normalize_entry cv) groups))"

text \<open>
  \<^verbatim>\<open>
  function normalizeGroups(db) {
    ...
    db.groups = normalized;
    return db;
  }
  \<close>
  The assignment replaces the value of the field \<^verbatim>\<open>groups\<close> where it is, or adds the field
  at the end.
\<close>

definition normalizeGroups :: "coercions \<Rightarrow> db \<Rightarrow> db" where
  "normalizeGroups cv d = AList.update ''groups'' (JArr (map group_json (normalized cv d))) d"

text \<open>\<^verbatim>\<open>arr.findIndex(p)\<close>: the first index whose element satisfies \<open>p\<close>; \<open>None\<close> is -1.\<close>

fun findIndex :: "('a \<Rightarrow> bool) \<Rightarrow> 'a list \<Rightarrow> nat option" where
  "findIndex p [] = None"
| "findIndex p (x # xs) =
     (if p x then Some 0 else (case findIndex p xs of None \<Rightarrow> None | Some i \<Rightarrow> Some (Suc i)))"

text \<open>
  The core of the \<^verbatim>\<open>add_group\<close> command, on the entries of the normalised registry:
  \<^verbatim>\<open>
  const idx = db.groups.findIndex((g) => extractGroupId(g.link) === String(groupId));
  const entry = { name, link, waitDays };
  if (idx >= 0) db.groups[idx] = entry;
  else db.groups.push(entry);
  \<close>
\<close>

definition upsert :: "string \<Rightarrow> group \<Rightarrow> group list \<Rightarrow> group list" where
  "upsert groupId entry groups =
     (case findIndex (\<lambda>g. extractGroupId (link g) = Some groupId) groups of
        Some idx \<Rightarrow> groups[idx := entry]
      | None \<Rightarrow> groups @ [entry])"

text \<open>
  The \<^verbatim>\<open>add_group\<close> branch of the \<^verbatim>\<open>interactionCreate\<close> handler. The interaction carries
  the user's id and the three options (\<^verbatim>\<open>waitdays\<close> is optional); the result is the reply
  and the store afterwards.
  \<^verbatim>\<open>
  if (interaction.user.id !== config.ownerId) { reply("Only the owner ..."); return; }
  const name = interaction.options.getString("name", true).trim();
  const link = interaction.options.getString("link", true).trim();
  const waitDays = interaction.options.getInteger("waitdays") ?? 14;
  const groupId = extractGroupId(link);
  if (!groupId) { reply("That doesn't look like a valid Roblox group link."); return; }
  db = normalizeGroups(loadDB());
  db.groups = db.groups || [];
  ... (the upsert) ...
  saveDB(db);
  reply(`Saved group: **${name}**`);
  \<close>
\<close>

record interaction =
  user_id :: string
  opt_name :: string
  opt_link :: string
  opt_waitdays :: "int option"

datatype reply = OwnerOnly | InvalidLink | Saved string

text \<open>The entry \<^verbatim>\<open>{ name, link, waitDays }\<close> built from the options.\<close>

definition entry_of :: "interaction \<Rightarrow> group" where
  "entry_of ia =
     \<lparr>name = js_trim (opt_name ia),
      link = js_trim (opt_link ia),
      waitDays = (case opt_waitdays ia of None \<Rightarrow> 14 | Some w \<Rightarrow> w)\<rparr>"

definition add_group :: "coercions \<Rightarrow> string \<Rightarrow> interaction \<Rightarrow> db option \<Rightarrow> reply \<times> db option" where
  "add_group cv ownerId ia file =
     (if user_id ia \<noteq> ownerId then (OwnerOnly, file)
      else
        (case extractGroupId (js_trim (opt_link ia)) of
           None \<Rightarrow> (InvalidLink, file)
         | Some groupId \<Rightarrow>
             let (loaded, file1) = loadDB file;
                 d = normalizeGroups cv loaded;
                 groups = upsert groupId (entry_of ia) (normalized cv loaded);
                 d' = AList.update ''groups'' (JArr (map group_json groups)) d
             in (Saved (js_trim (opt_name ia)), saveDB d' file1)))"

text \<open>The group entries held by a store: the array under \<^verbatim>\<open>groups\<close>.\<close>

definition stored_groups :: "db option \<Rightarrow> json list" where
  "stored_groups file =
     (case file of
        None \<Rightarrow> []
      | Some d \<Rightarrow> (case map_of d ''groups'' of Some (JArr gs) \<Rightarrow> gs | _ \<Rightarrow> []))"

section \<open>Scan throttling: the per-requester cooldown\<close>

text \<open>
  \<^verbatim>\<open>const scanCooldown = new Map();\<close> maps an author id to the time (milliseconds, as
  \<^verbatim>\<open>Date.now()\<close> returns them) of that author's last admitted scan.
\<close>

type_synonym cooldown_map = "string \<rightharpoonup> int"

definition COOLDOWN_MS :: int where
  "COOLDOWN_MS = 5000"

text \<open>
  \<^verbatim>\<open>scanCooldown.get(id) || 0\<close>: \<^verbatim>\<open>get\<close> returns \<^verbatim>\<open>undefined\<close> for an unknown author, and
  \<^verbatim>\<open>|| 0\<close> turns that (and a stored 0) into 0.
\<close>

definition last_scan :: "cooldown_map \<Rightarrow> string \<Rightarrow> int" where
  "last_scan scanCooldown author = (case scanCooldown author of None \<Rightarrow> 0 | Some t \<Rightarrow> t)"

text \<open>
  The cooldown check of the \<^verbatim>\<open>messageCreate\<close> handler:
  \<^verbatim>\<open>
  const now = Date.now();
  const last = scanCooldown.get(message.author.id) || 0;
  if (now - last < COOLDOWN_MS) { await message.reply(...); return; }
  scanCooldown.set(message.author.id, now);
  \<close>
  The result is whether the trigger goes on to the queue, and the map afterwards.
\<close>

definition cooldown_check :: "cooldown_map \<Rightarrow> string \<Rightarrow> int \<Rightarrow> bool \<times> cooldown_map" where
  "cooldown_check scanCooldown author now =
     (let last = last_scan scanCooldown author in
      if now - last < COOLDOWN_MS then (False, scanCooldown)
      else (True, scanCooldown(author \<mapsto> now)))"

section \<open>The payout after the marketplace fee\<close>

text \<open>
  \<^verbatim>\<open>
  function robuxAfterFee(price) {
    return Math.floor(price * 0.7);
  }
  \<close>
  The product is a product of binary64 numbers. The literal \<^verbatim>\<open>0.7\<close> is the binary64 number
  nearest to 7/10, which is \<open>6305039478318694 / 2^53\<close> (bit pattern 3FE6666666666666). The
  product of an integer price with it is the exact product rounded to 53 significant
  bits, ties to even; the model keeps every value as its numerator over \<open>2^53\<close>. The model
  is exact for a price that is itself a binary64 number (magnitude up to \<open>2^53\<close>); the
  results are far from the ends of the exponent range.
\<close>

fun bit_length :: "nat \<Rightarrow> nat" where
  "bit_length n = (if n = 0 then 0 else Suc (bit_length (n div 2)))"

declare bit_length.simps [simp del]

text \<open>Rounding a natural number to the nearest one with at most 53 significant bits, ties
  to the even significand.\<close>

definition round53 :: "nat \<Rightarrow> nat" where
  "round53 n =
     (let k = bit_length n - 53 in
      if k = 0 then n
      else
        let q = n div 2 ^ k; r = n mod 2 ^ k; half = 2 ^ (k - 1)
        in (if r < half \<or> (r = half \<and> even q) then q else q + 1) * 2 ^ k)"

definition double_0_7 :: nat where
  "double_0_7 = 6305039478318694"

text \<open>\<^verbatim>\<open>price * 0.7\<close>, as a numerator over \<open>2^53\<close>: rounding is symmetric in the sign.\<close>

definition times_0_7 :: "int \<Rightarrow> int" where
  "times_0_7 price = sgn price * int (round53 (nat \<bar>price\<bar> * double_0_7))"

definition robuxAfterFee :: "int \<Rightarrow> int" where
  "robuxAfterFee price = times_0_7 price div 2 ^ 53"

section \<open>Calls to the marketplace\<close>

text \<open>
  What the program reads of a response: the status, the \<^verbatim>\<open>retry-after\<close> header (\<open>None\<close>
  when \<^verbatim>\<open>headers.get\<close> returns \<^verbatim>\<open>null\<close>) and the body parsed by \<^verbatim>\<open>res.json()\<close> (\<open>None\<close> when
  the body is not JSON and \<^verbatim>\<open>res.json()\<close> rejects).
\<close>

record response =
  status :: nat
  retry_after :: "string option"
  body :: "json option"

text \<open>\<^verbatim>\<open>res.ok\<close>: the status is in the range 200 to 299.\<close>

definition ok :: "response \<Rightarrow> bool" where
  "ok res = (200 \<le> status res \<and> status res \<le> 299)"

text \<open>
  The errors thrown in a scan: a rejected \<^verbatim>\<open>fetch\<close>, the three errors the program throws
  itself (with the status they quote), a rejected \<^verbatim>\<open>res.json()\<close>, and a property read
  on \<^verbatim>\<open>null\<close>.
\<close>

datatype error =
    NetworkError string
  | FetchInfoFailed nat
  | FetchDetailsFailed nat
  | CookieNotSet
  | JsonSyntaxError
  | TypeError

text \<open>
  The network is the environment: \<open>net url k\<close> is the outcome of the call number \<open>k\<close>
  (from 0) of \<^verbatim>\<open>fetch\<close> with that URL, a rejection or a response. Within one scan the
  listing identifiers are distinct, so every URL is fetched by one call of
  \<^verbatim>\<open>fetchGamePassInfo\<close> or \<^verbatim>\<open>fetchGamePassDetails\<close> only.
\<close>

type_synonym network = "string \<Rightarrow> nat \<Rightarrow> error + response"

text \<open>What a call leaves behind: the attempts made and the waits between them, each with
  the value passed to \<^verbatim>\<open>sleep\<close>.\<close>

datatype event = Fetched nat | Slept double

text \<open>
  \<^verbatim>\<open>x * 1000\<close> in binary64: the exact product rounded to 53 significant bits, ties to even,
  and an infinity when the rounded product is \<open>2^1024\<close> or more in magnitude. (A product
  below the normal range is rounded more coarsely by the machine, to a number of the same
  sign that is not zero and is below 1 in magnitude, as here; \<^verbatim>\<open>Math.ceil\<close> does not tell
  the two apart.)
\<close>

definition times_1000 :: "double \<Rightarrow> double" where
  "times_1000 x =
     (case x of
        Dyadic m e \<Rightarrow>
          (let r = round53 (nat \<bar>m\<bar> * 1000) in
           if int (bit_length r) + e > 1024 then (if m < 0 then NegInf else PosInf)
           else Dyadic (sgn m * int r) e)
      | PosInf \<Rightarrow> PosInf
      | NegInf \<Rightarrow> NegInf
      | NotNumber \<Rightarrow> NotNumber)"

text \<open>\<^verbatim>\<open>Math.ceil(x)\<close>: the least whole number that is not below \<open>x\<close>.\<close>

definition Math_ceil :: "double \<Rightarrow> double" where
  "Math_ceil x =
     (case x of
        Dyadic m e \<Rightarrow>
          Dyadic (if 0 \<le> e then m * 2 ^ nat e else - ((- m) div 2 ^ nat (- e))) 0
      | PosInf \<Rightarrow> PosInf
      | NegInf \<Rightarrow> NegInf
      | NotNumber \<Rightarrow> NotNumber)"

text \<open>\<^verbatim>\<open>Math.max(1000, x)\<close>; it is NaN when \<open>x\<close> is NaN.\<close>

definition Math_max_1000 :: "double \<Rightarrow> double" where
  "Math_max_1000 x =
     (case x of
        Dyadic m e \<Rightarrow>
          if (if 0 \<le> e then 1000 < m * 2 ^ nat e else 1000 * 2 ^ nat (- e) < m)
          then Dyadic m e else Dyadic 1000 0
      | PosInf \<Rightarrow> PosInf
      | NegInf \<Rightarrow> Dyadic 1000 0
      | NotNumber \<Rightarrow> NotNumber)"

text \<open>
  The wait after a throttled attempt:
  \<^verbatim>\<open>
  const retryAfter = res.headers.get("retry-after");
  const waitMs = retryAfter
    ? Math.max(1000, Math.ceil(Number(retryAfter) * 1000))
    : 1500 * (attempt + 1);
  \<close>
  An empty header value is falsy, as a missing header is.
\<close>

definition waitMs :: "coercions \<Rightarrow> nat \<Rightarrow> response \<Rightarrow> double" where
  "waitMs cv attempt res =
     (case retry_after res of
        None \<Rightarrow> Dyadic (1500 * (int attempt + 1)) 0
      | Some retryAfter \<Rightarrow>
          if retryAfter = [] then Dyadic (1500 * (int attempt + 1)) 0
          else Math_max_1000 (Math_ceil (times_1000 (string_to_double cv retryAfter))))"

text \<open>
  \<^verbatim>\<open>
  async function fetchWithRetry(url, options = {}, maxRetries = 3) {
    let lastRes = null;
    for (let attempt = 0; attempt <= maxRetries; attempt++) {
      const res = await fetch(url, options);
      lastRes = res;
      if (res.status !== 429) return res;
      const retryAfter = ...; const waitMs = ...;
      if (attempt === maxRetries) return res;
      await sleep(waitMs);
    }
    return lastRes;
  }
  \<close>
  \<open>fetch k\<close> is the outcome of the call number \<open>k\<close> of \<^verbatim>\<open>fetch(url, options)\<close>; a rejection
  of \<^verbatim>\<open>fetch\<close> leaves the function as an exception. \<open>maxRetries\<close> is an integer; with a
  negative one the loop makes no attempt and the function returns \<^verbatim>\<open>null\<close>. The result
  comes with the events of the call, in order.
\<close>

function fetchWithRetry_loop ::
  "coercions \<Rightarrow> (nat \<Rightarrow> error + response) \<Rightarrow> int \<Rightarrow> nat \<Rightarrow> response option \<Rightarrow> event list
   \<Rightarrow> (error + response option) \<times> event list" where
  "fetchWithRetry_loop cv fetch maxRetries attempt lastRes evs =
     (if int attempt \<le> maxRetries then
        (case fetch attempt of
           Inl e \<Rightarrow> (Inl e, evs @ [Fetched attempt])
         | Inr res \<Rightarrow>
             if status res \<noteq> 429 then (Inr (Some res), evs @ [Fetched attempt])
             else if int attempt = maxRetries then (Inr (Some res), evs @ [Fetched attempt])
             else fetchWithRetry_loop cv fetch maxRetries (attempt + 1) (Some res)
                    (evs @ [Fetched attempt, Slept (waitMs cv attempt res)]))
      else (Inr lastRes, evs))"
  by pat_completeness auto
termination
  by (relation "measure (\<lambda>(cv, fetch, maxRetries, attempt, lastRes, evs).
        nat (maxRetries + 1 - int attempt))")
    auto

declare fetchWithRetry_loop.simps [simp del]

definition fetchWithRetry ::
  "coercions \<Rightarrow> (nat \<Rightarrow> error + response) \<Rightarrow> int \<Rightarrow> (error + response option) \<times> event list" where
  "fetchWithRetry cv fetch maxRetries = fetchWithRetry_loop cv fetch maxRetries 0 None []"

text \<open>
  \<^verbatim>\<open>
  async function fetchGamePassInfo(gamePassId) {
    const url = `https://apis.roblox.com/game-passes/v1/game-passes/${gamePassId}/product-info`;
    const res = await fetch(url);
    if (!res.ok) throw new Error(`Failed to fetch gamepass info (${res.status})`);
    return res.json();
  }
  \<close>
\<close>

definition info_url :: "string \<Rightarrow> string" where
  "info_url gamePassId =
     ''https://apis.roblox.com/game-passes/v1/game-passes/'' @ gamePassId @ ''/product-info''"

definition fetchGamePassInfo :: "network \<Rightarrow> string \<Rightarrow> error + json" where
  "fetchGamePassInfo net gamePassId =
     (case net (info_url gamePassId) 0 of
        Inl e \<Rightarrow> Inl e
      | Inr res \<Rightarrow>
          if \<not> ok res then Inl (FetchInfoFailed (status res))
          else (case body res of None \<Rightarrow> Inl JsonSyntaxError | Some j \<Rightarrow> Inr j))"

text \<open>
  \<^verbatim>\<open>
  async function fetchGamePassDetails(gamePassId) {
    const cookie = process.env.ROBLOSECURITY; // optional
    if (!cookie) throw new Error("ROBLOSECURITY environment variable not set.");
    const url = `https://apis.roblox.com/game-passes/v1/game-passes/${gamePassId}/details`;
    const res = await fetchWithRetry(url, { headers: { cookie: ..., ... } }, 3);
    if (!res.ok) throw new Error(`Failed to fetch gamepass details (${res.status})`);
    return res.json();
  }
  \<close>
  \<open>cookie\<close> is the environment variable, \<open>None\<close> when it is not set; an empty value is
  falsy too.
\<close>

definition details_url :: "string \<Rightarrow> string" where
  "details_url gamePassId =
     ''https://apis.roblox.com/game-passes/v1/game-passes/'' @ gamePassId @ ''/details''"

definition fetchGamePassDetails ::
  "coercions \<Rightarrow> network \<Rightarrow> string option \<Rightarrow> string \<Rightarrow> error + json" where
  "fetchGamePassDetails cv net cookie gamePassId =
     (if cookie = None \<or> cookie = Some [] then Inl CookieNotSet
      else
        (case fst (fetchWithRetry cv (net (details_url gamePassId)) 3) of
           Inl e \<Rightarrow> Inl e
         | Inr None \<Rightarrow> Inl TypeError
         | Inr (Some res) \<Rightarrow>
             if \<not> ok res then Inl (FetchDetailsFailed (status res))
             else (case body res of None \<Rightarrow> Inl JsonSyntaxError | Some j \<Rightarrow> Inr j)))"

text \<open>
  \<^verbatim>\<open>
  function hasRegionalPricing(details) {
    const pi = details?.priceInformation;
    if (!pi) return false;
    if (pi.isInActivePriceOptimizationExperiment === true) return true;
    if (pi.isInPriceOptimizationExperiment === true) return true;
    if (pi.isPriceOptimized === true) return true;
    const enabled = Array.isArray(pi.enabledFeatures) ? pi.enabledFeatures.map(String) : [];
    const hits = ["RegionalPriceExperiment", "RegionalPricing", "PriceOptimization",
                  "PriceOptimizationExperiment", "DynamicPricing"];
    return enabled.some((x) => hits.includes(x));
  }
  \<close>
\<close>

definition hits :: "string list" where
  "hits = [''RegionalPriceExperiment'', ''RegionalPricing'', ''PriceOptimization'',
           ''PriceOptimizationExperiment'', ''DynamicPricing'']"

definition hasRegionalPricing :: "coercions \<Rightarrow> json \<Rightarrow> bool" where
  "hasRegionalPricing cv details =
     (case opt_prop details ''priceInformation'' of
        None \<Rightarrow> False
      | Some pinfo \<Rightarrow>
          if \<not> js_truthy pinfo then False
          else if get_prop pinfo ''isInActivePriceOptimizationExperiment'' = Some (JBool True) then True
          else if get_prop pinfo ''isInPriceOptimizationExperiment'' = Some (JBool True) then True
          else if get_prop pinfo ''isPriceOptimized'' = Some (JBool True) then True
          else
            let enabled = (case get_prop pinfo ''enabledFeatures'' of
                             Some (JArr xs) \<Rightarrow> map (js_String cv) xs
                           | _ \<Rightarrow> [])
            in list_ex (\<lambda>x. x \<in> set hits) enabled)"

section \<open>The scan of the listings\<close>

text \<open>
  \<^verbatim>\<open>const price = Number(info.PriceInRobux ?? info.priceInRobux ?? info.price ?? 0);\<close>
  Reading a property of \<^verbatim>\<open>null\<close> throws.
\<close>

definition price_of :: "coercions \<Rightarrow> json \<Rightarrow> error + jsnum" where
  "price_of cv info =
     (if info = JNull then Inl TypeError
      else Inr (js_Number cv
             (coalesce
               (coalesce
                 (coalesce (get_prop info ''PriceInRobux'') (get_prop info ''priceInRobux''))
                 (get_prop info ''price''))
               (Some (JNum 0)))))"

text \<open>
  The five texts pushed to \<^verbatim>\<open>blocks\<close>, each with the values it interpolates (the number
  of the listing, its link, and then the price, the payout or the error):
  \<^item> \<open>PriceUnreadable\<close>: the link and \<^verbatim>\<open>Price: (couldn't read)\<close>;
  \<^item> \<open>RegionalDetected\<close>: the link, the price and \<^verbatim>\<open>Regional pricing detected\<close>;
  \<^item> \<open>Payout\<close>: the link, the price and \<^verbatim>\<open>You will receive: ... robux\<close>;
  \<^item> \<open>PayoutUnverified\<close>: the link, the price, \<^verbatim>\<open>You will receive: ... robux\<close> and
    \<^verbatim>\<open>Couldn't check regional pricing right now (rate limited).\<close>;
  \<^item> \<open>ScanFailed\<close>: the link and \<^verbatim>\<open>Failed to scan (...)\<close> with the message of the error.
\<close>

datatype block =
    PriceUnreadable nat string
  | RegionalDetected nat string int
  | Payout nat string int int
  | PayoutUnverified nat string int int
  | ScanFailed nat string error

definition listing_link :: "string \<Rightarrow> string" where
  "listing_link gpId = ''https://www.roblox.com/game-pass/'' @ gpId"

text \<open>
  The optional detection of regional pricing:
  \<^verbatim>\<open>
  let details = null; let regionalOn = false;
  try {
    details = await fetchGamePassDetails(gpId);
    regionalOn = details ? hasRegionalPricing(details) : false;
  } catch (e) { details = null; regionalOn = false; }
  \<close>
  The result is the pair of \<^verbatim>\<open>details\<close> (\<open>None\<close> is \<^verbatim>\<open>null\<close>) and \<^verbatim>\<open>regionalOn\<close>.
\<close>

definition regional_check ::
  "coercions \<Rightarrow> network \<Rightarrow> string option \<Rightarrow> string \<Rightarrow> json option \<times> bool" where
  "regional_check cv net cookie gpId =
     (case fetchGamePassDetails cv net cookie gpId of
        Inl e \<Rightarrow> (None, False)
      | Inr details \<Rightarrow>
          (Some details, if js_truthy details then hasRegionalPricing cv details else False))"

text \<open>
  The body of the loop over the listings, for the listing number \<open>i\<close>:
  \<^verbatim>\<open>
  const link = `https://www.roblox.com/game-pass/${gpId}`;
  try {
    const info = await fetchGamePassInfo(gpId);
    const price = Number(info.PriceInRobux ?? info.priceInRobux ?? info.price ?? 0);
    if (!price) { blocks.push(`... Price: (couldn't read)`); i++; continue; }
    const receive = robuxAfterFee(price);
    ... (the regional check) ...
    if (details && regionalOn) blocks.push(`... Price ... Regional pricing detected`);
    else if (details && !regionalOn) blocks.push(`... Price ... You will receive ...`);
    else blocks.push(`... Price ... You will receive ... Couldn't check regional pricing ...`);
  } catch (e) {
    blocks.push(`... Failed to scan (${e?.message ?? "error"})`);
  }
  i++;
  await sleep(350);
  \<close>
  Every path pushes one block and adds one to \<open>i\<close>.
\<close>

definition scanListing :: "coercions \<Rightarrow> network \<Rightarrow> string option \<Rightarrow> nat \<Rightarrow> string \<Rightarrow> block" where
  "scanListing cv net cookie i gpId =
     (let lnk = listing_link gpId in
      case fetchGamePassInfo net gpId of
        Inl e \<Rightarrow> ScanFailed i lnk e
      | Inr info \<Rightarrow>
          (case price_of cv info of
             Inl e \<Rightarrow> ScanFailed i lnk e
           | Inr NaN \<Rightarrow> PriceUnreadable i lnk
           | Inr (Num price) \<Rightarrow>
               if price = 0 then PriceUnreadable i lnk
               else
                 let receive = robuxAfterFee price;
                     (details, regionalOn) = regional_check cv net cookie gpId;
                     details_truthy = (case details of None \<Rightarrow> False | Some d \<Rightarrow> js_truthy d)
                 in if details_truthy \<and> regionalOn then RegionalDetected i lnk price
                    else if details_truthy \<and> \<not> regionalOn then Payout i lnk price receive
                    else PayoutUnverified i lnk price receive))"

text \<open>\<^verbatim>\<open>const blocks = []; let i = 1; for (const gpId of ids) { ... }\<close>\<close>

fun scan_loop ::
  "coercions \<Rightarrow> network \<Rightarrow> string option \<Rightarrow> string list \<Rightarrow> nat \<Rightarrow> block list \<Rightarrow> block list" where
  "scan_loop cv net cookie [] i blocks = blocks"
| "scan_loop cv net cookie (gpId # ids) i blocks =
     scan_loop cv net cookie ids (i + 1) (blocks @ [scanListing cv net cookie i gpId])"

definition scan_blocks :: "coercions \<Rightarrow> network \<Rightarrow> string option \<Rightarrow> string list \<Rightarrow> block list" where
  "scan_blocks cv net cookie ids = scan_loop cv net cookie ids 1 []"

section \<open>The report in chunks\<close>

text \<open>
  \<^verbatim>\<open>
  // Discord message limit ~2000 chars, so chunk replies
  const chunks = [];
  let buf = "";
  for (const b of blocks) {
    if ((buf + b + "\n").length > 1800) {
      chunks.push(buf);
      buf = "";
    }
    buf += b + "\n";
  }
  if (buf.trim()) chunks.push(buf);
  \<close>
  The blocks are strings here; the length of a string is the number of its code units.
\<close>

fun chunk_loop :: "string list \<Rightarrow> string list \<Rightarrow> string \<Rightarrow> string list \<times> string" where
  "chunk_loop [] chunks buf = (chunks, buf)"
| "chunk_loop (b # blocks) chunks buf =
     (if length (buf @ b @ ''\<newline>'') > 1800
      then chunk_loop blocks (chunks @ [buf]) ([] @ b @ ''\<newline>'')
      else chunk_loop blocks chunks (buf @ b @ ''\<newline>''))"

definition chunk_blocks :: "string list \<Rightarrow> string list" where
  "chunk_blocks blocks =
     (let (chunks, buf) = chunk_loop blocks [] []
      in if js_trim buf \<noteq> [] then chunks @ [buf] else chunks)"

section \<open>The scan queue\<close>

text \<open>
  A promise settles as fulfilled or as rejected with a reason. A task is an \<^verbatim>\<open>async\<close>
  function: called in some state of the world, it leaves the world in another state and
  its promise settled. A promise of the chain is modelled by the computation that settles
  it, from the state of the world in which the chain starts. The world holds the console.
\<close>

datatype settled = Fulfilled | Rejected error

record world =
  console :: "error list"

type_synonym 'a promise = "'a world_scheme \<Rightarrow> settled \<times> 'a world_scheme"

text \<open>\<^verbatim>\<open>Promise.resolve()\<close>: fulfilled from the start.\<close>

definition Promise_resolve :: "'a promise" where
  "Promise_resolve w = (Fulfilled, w)"

text \<open>
  \<^verbatim>\<open>p.then(task)\<close>: once \<open>p\<close> is fulfilled, \<open>task\<close> is called and the new promise settles as
  the promise of the task does; when \<open>p\<close> is rejected the task is not called and the new
  promise is rejected with the same reason.
\<close>

definition then_promise :: "'a promise \<Rightarrow> 'a promise \<Rightarrow> 'a promise" where
  "then_promise p task w =
     (case p w of
        (Fulfilled, w') \<Rightarrow> task w'
      | (Rejected e, w') \<Rightarrow> (Rejected e, w'))"

text \<open>
  \<^verbatim>\<open>p.catch(handler)\<close>: when \<open>p\<close> is rejected the handler is called with the reason, and
  the new promise is fulfilled once the handler has returned; when \<open>p\<close> is fulfilled the
  handler is not called.
\<close>

definition catch_promise ::
  "'a promise \<Rightarrow> (error \<Rightarrow> 'a world_scheme \<Rightarrow> 'a world_scheme) \<Rightarrow> 'a promise" where
  "catch_promise p handler w =
     (case p w of
        (Fulfilled, w') \<Rightarrow> (Fulfilled, w')
      | (Rejected e, w') \<Rightarrow> (Fulfilled, handler e w'))"

text \<open>\<^verbatim>\<open>(e) => console.error("Scan task failed:", e)\<close>\<close>

definition console_error :: "error \<Rightarrow> 'a world_scheme \<Rightarrow> 'a world_scheme" where
  "console_error e w = w\<lparr>console := console w @ [e]\<rparr>"

text \<open>
  \<^verbatim>\<open>
  let scanQueue = Promise.resolve();
  function enqueueScan(task) {
    scanQueue = scanQueue.then(task).catch((e) => console.error("Scan task failed:", e));
    return scanQueue;
  }
  \<close>
  The function takes the value of \<^verbatim>\<open>scanQueue\<close> and returns its new value.
\<close>

definition enqueueScan :: "'a promise \<Rightarrow> 'a promise \<Rightarrow> 'a promise" where
  "enqueueScan scanQueue task = catch_promise (then_promise scanQueue task) console_error"

section \<open>Notions of the specification\<close>

text \<open>
  The definitions of this section are not taken from the program: they state what the
  specification speaks of, and the program is compared with them below.
\<close>

text \<open>
  Every match of the game-pass pattern in a text, position by position from the left:
  the identifier found at each position where the pattern matches.
\<close>

fun all_gamepass_matches :: "string \<Rightarrow> string list" where
  "all_gamepass_matches [] = []"
| "all_gamepass_matches (c # cs) =
     (case match_gamepass (c # cs) of None \<Rightarrow> [] | Some d \<Rightarrow> [d]) @ all_gamepass_matches cs"

text \<open>A list without its repetitions: the elements that do not occur earlier in the list,
  in the order of the list.\<close>

definition first_occurrences :: "'a list \<Rightarrow> 'a list" where
  "first_occurrences xs =
     map (\<lambda>i. xs ! i) (filter (\<lambda>i. xs ! i \<notin> set (take i xs)) [0..<length xs])"

text \<open>The group identifiers extracted from the links of a list of entries (an entry
  whose link holds no identifier contributes none).\<close>

definition group_ids :: "group list \<Rightarrow> string list" where
  "group_ids gs =
     concat (map (\<lambda>g. case extractGroupId (link g) of None \<Rightarrow> [] | Some i \<Rightarrow> [i]) gs)"

text \<open>What a block reports: the price, the payout, the regional-pricing indicator
  (\<open>None\<close> when it is unknown) and the error.\<close>

fun block_price :: "block \<Rightarrow> int option" where
  "block_price (PriceUnreadable i l) = None"
| "block_price (RegionalDetected i l p) = Some p"
| "block_price (Payout i l p r) = Some p"
| "block_price (PayoutUnverified i l p r) = Some p"
| "block_price (ScanFailed i l e) = None"

fun block_payout :: "block \<Rightarrow> int option" where
  "block_payout (PriceUnreadable i l) = None"
| "block_payout (RegionalDetected i l p) = None"
| "block_payout (Payout i l p r) = Some r"
| "block_payout (PayoutUnverified i l p r) = Some r"
| "block_payout (ScanFailed i l e) = None"

fun block_regional :: "block \<Rightarrow> bool option" where
  "block_regional (PriceUnreadable i l) = None"
| "block_regional (RegionalDetected i l p) = Some True"
| "block_regional (Payout i l p r) = Some False"
| "block_regional (PayoutUnverified i l p r) = None"
| "block_regional (ScanFailed i l e) = None"

fun block_error :: "block \<Rightarrow> error option" where
  "block_error (ScanFailed i l e) = Some e"
| "block_error b = None"

text \<open>
  A choice of the conversions, for the concrete examples. It agrees with the language on
  the strings the examples use: \<^verbatim>\<open>Number("2")\<close> is 2, \<^verbatim>\<open>Number("2.007")\<close> is the binary64
  number nearest to 2.007, which is \<open>4519362226066293 / 2^51\<close> (bit pattern
  40000E5604189375), and the other strings of the examples, none of them the text of a
  number, give NaN.
\<close>

definition cv0 :: coercions where
  "cv0 =
     \<lparr>to_str = (\<lambda>v. ''?''),
      to_num = (\<lambda>v. if v = JStr ''2'' then Num 2 else NaN),
      string_to_double =
        (\<lambda>s. if s = ''2'' then Dyadic 2 0
             else if s = ''2.007'' then Dyadic 4519362226066293 (- 51)
             else NotNumber)\<rparr>"

text \<open>The text of a run of blocks, each followed by a line feed.\<close>

definition joined :: "string list \<Rightarrow> string" where
  "joined g = concat (map (\<lambda>b. b @ ''\<newline>'') g)"

text \<open>Tasks run one after the other, each from the state of the world that the one
  before it left, a failure being written to the console before the next task starts.\<close>

fun run_in_turn :: "'a promise list \<Rightarrow> 'a world_scheme \<Rightarrow> 'a world_scheme" where
  "run_in_turn [] w = w"
| "run_in_turn (t # ts) w =
     (case t w of
        (Fulfilled, w') \<Rightarrow> run_in_turn ts w'
      | (Rejected e, w') \<Rightarrow> run_in_turn ts (console_error e w'))"

chapter \<open>Properties\<close>

section \<open>Properties of the listing resolver\<close>

lemmas regex_eval = canonicalize_def is_digit_def match_gamepass_def match_digits_def
  match_group_def match_group_tail_def

lemma digit_not_r: "is_digit x \<Longrightarrow> canonicalize x \<noteq> canonicalize (CHR ''r'')"
  by (auto simp: is_digit_def canonicalize_def Let_def)

lemma set_foldl_Set_add: "set (foldl Set_add acc xs) = set acc \<union> set xs"
  by (induction xs arbitrary: acc) (auto simp: Set_add_def)

lemma distinct_foldl_Set_add: "distinct acc \<Longrightarrow> distinct (foldl Set_add acc xs)"
  by (induction xs arbitrary: acc) (auto simp: Set_add_def)

lemma first_occurrences_snoc:
  "first_occurrences (xs @ [x]) = first_occurrences xs @ (if x \<in> set xs then [] else [x])"
proof -
  have "filter (\<lambda>i. (xs @ [x]) ! i \<notin> set (take i (xs @ [x]))) [0..<length xs]
        = filter (\<lambda>i. xs ! i \<notin> set (take i xs)) [0..<length xs]"
    by (rule filter_cong) (auto simp: nth_append)
  moreover have "map (\<lambda>i. (xs @ [x]) ! i) (filter (\<lambda>i. xs ! i \<notin> set (take i xs)) [0..<length xs])
        = map (\<lambda>i. xs ! i) (filter (\<lambda>i. xs ! i \<notin> set (take i xs)) [0..<length xs])"
    by (rule map_cong) (auto simp: nth_append)
  ultimately show ?thesis
    by (simp add: first_occurrences_def)
qed

lemma new_Set_first_occurrences: "new_Set xs = first_occurrences xs"
proof (induction xs rule: rev_induct)
  case Nil
  show ?case by (simp add: new_Set_def first_occurrences_def)
next
  case (snoc x xs)
  have "set (new_Set xs) = set xs"
    by (simp add: new_Set_def set_foldl_Set_add)
  with snoc show ?case
    by (simp add: new_Set_def first_occurrences_snoc Set_add_def)
qed

text \<open>A successful match of a literal consumes a prefix that equals the literal up to
  case.\<close>

lemma match_literal_split:
  "match_literal p s = Some r \<Longrightarrow>
   \<exists>u. s = u @ r \<and> map canonicalize u = map canonicalize p"
proof (induction p s rule: match_literal.induct)
  case (1 s)
  then show ?case by simp
next
  case (2 p ps)
  then show ?case by simp
next
  case (3 p ps c cs)
  from "3.prems" have eq: "canonicalize c = canonicalize p" and m: "match_literal ps cs = Some r"
    by (auto split: if_splits)
  from "3.IH" [OF eq m] obtain u where "cs = u @ r" "map canonicalize u = map canonicalize ps"
    by blast
  with eq have "c # cs = (c # u) @ r \<and> map canonicalize (c # u) = map canonicalize (p # ps)"
    by simp
  then show ?case by blast
qed

lemma match_digits_split:
  assumes "match_digits r = Some d"
  shows "d \<noteq> [] \<and> (\<forall>x\<in>set d. is_digit x) \<and> (\<exists>rest. r = d @ rest)"
proof -
  from assms have d: "d = takeWhile is_digit r" and ne: "d \<noteq> []"
    by (auto simp: match_digits_def Let_def split: if_splits)
  have "r = d @ dropWhile is_digit r"
    by (simp add: d)
  moreover have "\<forall>x\<in>set d. is_digit x"
    using d by (auto dest: set_takeWhileD)
  ultimately show ?thesis using ne by blast
qed

text \<open>Inside a match of the game-pass pattern, after its first character, there is no
  \<open>r\<close> and no \<open>R\<close>: no other match can start there.\<close>

lemma match_gamepass_split:
  assumes "match_gamepass (c # cs) = Some d"
  shows "\<exists>u rest. cs = u @ rest \<and> length u = length ''roblox.com/game-pass/'' + length d - 1
           \<and> (\<forall>x\<in>set u. canonicalize x \<noteq> canonicalize (CHR ''r''))"
proof -
  from assms obtain r where lit: "match_literal ''roblox.com/game-pass/'' (c # cs) = Some r"
    and dig: "match_digits r = Some d"
    by (auto simp: match_gamepass_def split: option.splits)
  from match_literal_split [OF lit] obtain u0 where u0: "c # cs = u0 @ r"
    and can: "map canonicalize u0 = map canonicalize ''roblox.com/game-pass/''"
    by blast
  from can have len: "length u0 = length ''roblox.com/game-pass/''"
    by (metis length_map)
  then obtain u1 where u0c: "u0 = c # u1"
    using u0 by (cases u0) auto
  from can u0c have can1: "map canonicalize u1 = map canonicalize ''oblox.com/game-pass/''"
    by simp
  from match_digits_split [OF dig] obtain rest where dne: "d \<noteq> []"
    and dd: "\<forall>x\<in>set d. is_digit x" and r: "r = d @ rest"
    by blast
  have "\<forall>x\<in>set u1. canonicalize x \<noteq> canonicalize (CHR ''r'')"
  proof
    fix x assume "x \<in> set u1"
    then have "canonicalize x \<in> set (map canonicalize u1)" by simp
    then have "canonicalize x \<in> set (map canonicalize ''oblox.com/game-pass/'')"
      by (simp only: can1)
    then show "canonicalize x \<noteq> canonicalize (CHR ''r'')"
      by (auto simp: canonicalize_def)
  qed
  with dd have no_r: "\<forall>x\<in>set (u1 @ d). canonicalize x \<noteq> canonicalize (CHR ''r'')"
    by (auto dest: digit_not_r)
  have "cs = (u1 @ d) @ rest"
    using u0 u0c r by simp
  moreover have "length (u1 @ d) = length ''roblox.com/game-pass/'' + length d - 1"
    using len u0c by simp
  ultimately show ?thesis using no_r by blast
qed

lemma match_gamepass_no_r:
  "canonicalize x \<noteq> canonicalize (CHR ''r'') \<Longrightarrow> match_gamepass (x # s) = None"
  by (simp add: match_gamepass_def)

lemma all_gamepass_matches_skip:
  "\<forall>x\<in>set u. canonicalize x \<noteq> canonicalize (CHR ''r'') \<Longrightarrow>
   all_gamepass_matches (u @ v) = all_gamepass_matches v"
  by (induction u) (simp_all add: match_gamepass_no_r)

lemma matchAll_gamepass_skip:
  "matchAll_gamepass (length u) (u @ v) = matchAll_gamepass 0 v"
  by (induction u) simp_all

text \<open>Resuming the search after each match misses no match.\<close>

lemma matchAll_gamepass_all: "matchAll_gamepass 0 s = all_gamepass_matches s"
proof (induction "length s" arbitrary: s rule: less_induct)
  case less
  show ?case
  proof (cases s)
    case Nil
    then show ?thesis by simp
  next
    case (Cons c cs)
    show ?thesis
    proof (cases "match_gamepass (c # cs)")
      case None
      with Cons less show ?thesis by simp
    next
      case (Some d)
      from match_gamepass_split [OF Some] obtain u rest where cs: "cs = u @ rest"
        and len: "length u = length ''roblox.com/game-pass/'' + length d - 1"
        and no_r: "\<forall>x\<in>set u. canonicalize x \<noteq> canonicalize (CHR ''r'')"
        by blast
      have "length rest < length s"
        using Cons cs by simp
      then have ih: "matchAll_gamepass 0 rest = all_gamepass_matches rest"
        by (rule less)
      have "matchAll_gamepass (length ''roblox.com/game-pass/'' + length d - 1) cs
            = matchAll_gamepass 0 rest"
        using matchAll_gamepass_skip [of u rest] cs len by simp
      moreover have "all_gamepass_matches cs = all_gamepass_matches rest"
        using all_gamepass_matches_skip [OF no_r] cs by simp
      ultimately show ?thesis
        using Cons Some ih by simp
    qed
  qed
qed

text \<open>
  C3: for every text, \<open>extractGamePassIds\<close> returns the identifiers of all the
  case-insensitive matches of the game-pass link pattern (the search that resumes after
  each match finds the match at every position where there is one), with the repetitions
  removed and the order of first occurrence kept: an identifier is in the result once,
  however many links carry it. A text without a match, an empty text and a missing text
  give the empty list, not an error.
\<close>

theorem extractGamePassIds_all_matches_unique:
  "extractGamePassIds None = []
   \<and> extractGamePassIds (Some t) = first_occurrences (all_gamepass_matches t)
   \<and> distinct (extractGamePassIds (Some t))
   \<and> set (extractGamePassIds (Some t)) = set (all_gamepass_matches t)
   \<and> (all_gamepass_matches t = [] \<longrightarrow> extractGamePassIds (Some t) = [])"
proof -
  have e: "extractGamePassIds (Some t) = new_Set (all_gamepass_matches t)"
    unfolding extractGamePassIds_def matchAll_gamepass_all
    by (auto simp: new_Set_def)
  have "distinct (new_Set (all_gamepass_matches t))"
    by (simp add: new_Set_def distinct_foldl_Set_add)
  moreover have "set (new_Set (all_gamepass_matches t)) = set (all_gamepass_matches t)"
    by (simp add: new_Set_def set_foldl_Set_add)
  moreover have "all_gamepass_matches t = [] \<longrightarrow> new_Set (all_gamepass_matches t) = []"
    by (simp add: new_Set_def)
  moreover have "extractGamePassIds None = []"
    by (simp add: extractGamePassIds_def)
  moreover note new_Set_first_occurrences [of "all_gamepass_matches t"]
  ultimately show ?thesis
    unfolding e by blast
qed

theorem extractGamePassIds_all_matches_unique_witness:
  "all_gamepass_matches ''no link here'' = []
   \<and> extractGamePassIds (Some ''no link here'') = []
   \<and> all_gamepass_matches ''roblox.com/game-pass/12 Roblox.COM/Game-Pass/7 roblox.com/game-pass/12''
       = [''12'', ''7'', ''12'']
   \<and> extractGamePassIds (Some ''roblox.com/game-pass/12 Roblox.COM/Game-Pass/7 roblox.com/game-pass/12'')
       = [''12'', ''7'']"
proof -
  have m0: "all_gamepass_matches ''no link here'' = []"
    by (simp add: regex_eval)
  have m1: "all_gamepass_matches
              ''roblox.com/game-pass/12 Roblox.COM/Game-Pass/7 roblox.com/game-pass/12''
            = [''12'', ''7'', ''12'']"
    by (simp add: regex_eval)
  have f: "first_occurrences [''12'', ''7'', ''12''] = [''12'', ''7'']"
    by (simp add: first_occurrences_def upt_conv_Cons)
  from extractGamePassIds_all_matches_unique [of "''no link here''"] m0
  have a: "extractGamePassIds (Some ''no link here'') = []"
    by blast
  from extractGamePassIds_all_matches_unique
    [of "''roblox.com/game-pass/12 Roblox.COM/Game-Pass/7 roblox.com/game-pass/12''"]
  have "extractGamePassIds
          (Some ''roblox.com/game-pass/12 Roblox.COM/Game-Pass/7 roblox.com/game-pass/12'')
        = first_occurrences (all_gamepass_matches
            ''roblox.com/game-pass/12 Roblox.COM/Game-Pass/7 roblox.com/game-pass/12'')"
    by blast
  then have b: "extractGamePassIds
          (Some ''roblox.com/game-pass/12 Roblox.COM/Game-Pass/7 roblox.com/game-pass/12'')
        = [''12'', ''7'']"
    by (simp only: m1 f)
  from m0 a m1 b show ?thesis
    by blast
qed

section \<open>Properties of the registry\<close>

lemma normalize_entry_group_json: "normalize_entry cv (group_json g) = g"
  by (simp add: normalize_entry_def group_json_def opt_prop_def get_prop_def coalesce_def
      js_String_def js_Number_def)

lemma link_normalized: "g \<in> set (normalized cv d) \<Longrightarrow> link g \<noteq> []"
  by (auto simp: normalized_def Let_def)

lemma map_of_normalizeGroups:
  "map_of (normalizeGroups cv d) ''groups'' = Some (JArr (map group_json (normalized cv d)))"
  by (simp add: normalizeGroups_def update_conv')

lemma normalized_normalizeGroups: "normalized cv (normalizeGroups cv d) = normalized cv d"
proof -
  have "filter (\<lambda>g. link g \<noteq> []) (normalized cv d) = normalized cv d"
    by (simp add: normalized_def Let_def)
  then show ?thesis
    unfolding normalized_def [of cv "normalizeGroups cv d"]
    by (simp add: map_of_normalizeGroups o_def normalize_entry_group_json)
qed

lemma normalizeGroups_twice: "normalizeGroups cv (normalizeGroups cv d) = normalizeGroups cv d"
  unfolding normalizeGroups_def [of cv "normalizeGroups cv d"] normalized_normalizeGroups
  by (simp add: normalizeGroups_def)

lemma stored_groups_update:
  "stored_groups (Some (AList.update ''groups'' (JArr gs) d)) = gs"
  by (simp add: stored_groups_def update_conv')

text \<open>
  C10: \<open>normalizeGroups\<close> is idempotent. For every registry object, the groups list of
  the normalised registry holds entries with a string name, a non-empty string link and
  an integer \<open>waitDays\<close>; normalising such an entry gives the entry back, so a second
  normalisation leaves the groups list, and the whole registry, unchanged.
\<close>

theorem normalizeGroups_idempotent:
  "normalizeGroups cv (normalizeGroups cv d) = normalizeGroups cv d
   \<and> stored_groups (Some (normalizeGroups cv (normalizeGroups cv d)))
       = stored_groups (Some (normalizeGroups cv d))
   \<and> stored_groups (Some (normalizeGroups cv d)) = map group_json (normalized cv d)
   \<and> (\<forall>g \<in> set (normalized cv d). link g \<noteq> [] \<and> normalize_entry cv (group_json g) = g)"
  by (simp add: normalizeGroups_twice normalize_entry_group_json link_normalized)
    (simp add: normalizeGroups_def stored_groups_update)

theorem normalizeGroups_idempotent_witness:
  "normalized cv0 [(''groups'', JArr [JStr ''roblox.com/groups/1'', JNull,
       JObj [(''name'', JStr ''B''), (''link'', JStr ''roblox.com/groups/2'')]])]
     = [\<lparr>name = ''Group 1'', link = ''roblox.com/groups/1'', waitDays = 14\<rparr>,
        \<lparr>name = ''B'', link = ''roblox.com/groups/2'', waitDays = 14\<rparr>]
   \<and> normalize_entry cv0 (group_json \<lparr>name = ''B'', link = ''roblox.com/groups/2'', waitDays = 14\<rparr>)
     = \<lparr>name = ''B'', link = ''roblox.com/groups/2'', waitDays = 14\<rparr>
   \<and> normalizeGroups cv0 (normalizeGroups cv0 [(''groups'', JArr [JStr ''roblox.com/groups/1'', JNull,
       JObj [(''name'', JStr ''B''), (''link'', JStr ''roblox.com/groups/2'')]])])
     = [(''groups'', JArr
         [group_json \<lparr>name = ''Group 1'', link = ''roblox.com/groups/1'', waitDays = 14\<rparr>,
          group_json \<lparr>name = ''B'', link = ''roblox.com/groups/2'', waitDays = 14\<rparr>])]"
proof -
  let ?d = "[(''groups'', JArr [JStr ''roblox.com/groups/1'', JNull,
       JObj [(''name'', JStr ''B''), (''link'', JStr ''roblox.com/groups/2'')]])]"
  have n: "normalized cv0 ?d
     = [\<lparr>name = ''Group 1'', link = ''roblox.com/groups/1'', waitDays = 14\<rparr>,
        \<lparr>name = ''B'', link = ''roblox.com/groups/2'', waitDays = 14\<rparr>]"
    by (simp add: normalized_def normalize_entry_def opt_prop_def get_prop_def coalesce_def
        js_String_def js_Number_def cv0_def regex_eval)
  have u: "normalizeGroups cv0 ?d = [(''groups'', JArr
         [group_json \<lparr>name = ''Group 1'', link = ''roblox.com/groups/1'', waitDays = 14\<rparr>,
          group_json \<lparr>name = ''B'', link = ''roblox.com/groups/2'', waitDays = 14\<rparr>])]"
    unfolding normalizeGroups_def n by simp
  show ?thesis
    using normalizeGroups_idempotent [of cv0 ?d] n u by simp
qed

lemma findIndex_Some:
  "findIndex p xs = Some i \<Longrightarrow> i < length xs \<and> p (xs ! i) \<and> (\<forall>j<i. \<not> p (xs ! j))"
proof (induction xs arbitrary: i)
  case Nil
  then show ?case by simp
next
  case (Cons x xs)
  show ?case
  proof (cases "p x")
    case True
    with Cons.prems show ?thesis by simp
  next
    case False
    with Cons.prems obtain k where k: "findIndex p xs = Some k" and i: "i = Suc k"
      by (auto split: option.splits)
    from Cons.IH [OF k] have "k < length xs" "p (xs ! k)" "\<forall>j<k. \<not> p (xs ! j)"
      by simp_all
    with False i show ?thesis
      by (auto simp: less_Suc_eq_0_disj)
  qed
qed

lemma findIndex_None: "findIndex p xs = None \<Longrightarrow> \<forall>x\<in>set xs. \<not> p x"
  by (induction xs) (auto split: if_splits option.splits)

lemma group_ids_append: "group_ids (xs @ ys) = group_ids xs @ group_ids ys"
  by (simp add: group_ids_def)

lemma group_ids_update:
  assumes "i < length xs" "extractGroupId (link e) = extractGroupId (link (xs ! i))"
  shows "group_ids (xs[i := e]) = group_ids xs"
proof -
  let ?h = "\<lambda>g. case extractGroupId (link g) of None \<Rightarrow> [] | Some i \<Rightarrow> [i]"
  have "map ?h (xs[i := e]) = (map ?h xs)[i := ?h (xs ! i)]"
    using assms by (simp add: map_update)
  also have "\<dots> = map ?h xs"
    using assms(1) by (metis list_update_id map_update)
  finally show ?thesis
    by (simp add: group_ids_def)
qed

lemma set_group_ids:
  "set (group_ids xs) = {i. \<exists>g\<in>set xs. extractGroupId (link g) = Some i}"
  by (auto simp: group_ids_def split: option.splits)

lemma distinct_group_ids_upsert:
  assumes "extractGroupId (link e) = Some gid" "distinct (group_ids xs)"
  shows "distinct (group_ids (upsert gid e xs))"
proof (cases "findIndex (\<lambda>g. extractGroupId (link g) = Some gid) xs")
  case None
  from findIndex_None [OF None] have "gid \<notin> set (group_ids xs)"
    by (auto simp: set_group_ids)
  moreover have "group_ids [e] = [gid]"
    using assms(1) by (simp add: group_ids_def)
  ultimately show ?thesis
    using None assms(2) by (simp add: upsert_def group_ids_append)
next
  case (Some idx)
  from findIndex_Some [OF Some] have "idx < length xs" "extractGroupId (link (xs ! idx)) = Some gid"
    by simp_all
  then have "group_ids (xs[idx := e]) = group_ids xs"
    using assms(1) by (simp add: group_ids_update)
  then show ?thesis
    using Some assms(2) by (simp add: upsert_def)
qed

lemma add_group_saves:
  assumes "user_id ia = ownerId" "extractGroupId (js_trim (opt_link ia)) = Some gid"
  shows "add_group cv ownerId ia file =
           (Saved (js_trim (opt_name ia)),
            Some (AList.update ''groups''
                    (JArr (map group_json
                       (upsert gid (entry_of ia) (normalized cv (fst (loadDB file))))))
                    (normalizeGroups cv (fst (loadDB file)))))"
  using assms by (simp add: add_group_def Let_def saveDB_def split: prod.splits)

lemma findIndex_first:
  assumes "idx < length xs" "p (xs ! idx)" "\<forall>j<idx. \<not> p (xs ! j)"
  shows "findIndex p xs = Some idx"
proof (cases "findIndex p xs")
  case None
  from findIndex_None [OF None] assms(1,2) show ?thesis
    by (metis nth_mem)
next
  case (Some i)
  from findIndex_Some [OF Some] have i: "i < length xs" "p (xs ! i)" "\<forall>j<i. \<not> p (xs ! j)"
    by simp_all
  have "i = idx"
    using i assms by (meson linorder_neqE_nat)
  with Some show ?thesis by simp
qed

lemma findIndex_none: "\<forall>x\<in>set xs. \<not> p x \<Longrightarrow> findIndex p xs = None"
  by (induction xs) auto

text \<open>
  C8 (as stated, refuted): the claim holds for every registry state. A stored registry
  that already holds two entries with the same group identifier (written by hand, or by
  an earlier version of the command that appended without looking for the identifier)
  keeps one of them beside the new entry: the upsert replaces the first entry with the
  identifier only. Here both stored links, one in the \<^verbatim>\<open>groups\<close> form and one in the
  \<^verbatim>\<open>communities\<close> form, carry the identifier 1.
\<close>

theorem add_group_duplicate_counterexample:
  "stored_groups (snd (add_group cv0 ''owner''
       \<lparr>user_id = ''owner'', opt_name = ''New'', opt_link = ''roblox.com/groups/1'',
        opt_waitdays = None\<rparr>
       (Some [(''groups'', JArr
          [JObj [(''name'', JStr ''A''), (''link'', JStr ''roblox.com/groups/1''),
                 (''waitDays'', JNum 14)],
           JObj [(''name'', JStr ''B''), (''link'', JStr ''roblox.com/communities/1''),
                 (''waitDays'', JNum 14)]])])))
     = [group_json \<lparr>name = ''New'', link = ''roblox.com/groups/1'', waitDays = 14\<rparr>,
        group_json \<lparr>name = ''B'', link = ''roblox.com/communities/1'', waitDays = 14\<rparr>]
   \<and> \<not> distinct (group_ids
        [\<lparr>name = ''New'', link = ''roblox.com/groups/1'', waitDays = 14\<rparr>,
         \<lparr>name = ''B'', link = ''roblox.com/communities/1'', waitDays = 14\<rparr>])"
  by (simp add: add_group_def entry_of_def loadDB_def saveDB_def normalizeGroups_def
      normalized_def normalize_entry_def opt_prop_def get_prop_def coalesce_def js_String_def
      js_Number_def cv0_def upsert_def stored_groups_def group_ids_def js_trim_def
      js_whitespace_def regex_eval)

text \<open>
  C8 (amended): for an \<^verbatim>\<open>add_group\<close> command of the owner with a link whose group identifier
  can be extracted, the saved registry holds the entries of the normalised stored
  registry with the new entry put in the place of the first entry whose link carries the
  same identifier, or added at the end when there is none; the match is by the extracted
  identifier, never by name or link text. When no two entries of the normalised stored
  registry share an identifier, no two entries of the saved registry do.
\<close>

theorem add_group_upsert_by_id:
  assumes "user_id ia = ownerId"
    and "extractGroupId (js_trim (opt_link ia)) = Some gid"
  shows "let old = normalized cv (fst (loadDB file));
             saved = upsert gid (entry_of ia) old
         in stored_groups (snd (add_group cv ownerId ia file)) = map group_json saved
            \<and> ((\<forall>g\<in>set old. extractGroupId (link g) \<noteq> Some gid) \<longrightarrow> saved = old @ [entry_of ia])
            \<and> (\<forall>idx. idx < length old \<and> extractGroupId (link (old ! idx)) = Some gid
                    \<and> (\<forall>j<idx. extractGroupId (link (old ! j)) \<noteq> Some gid)
                  \<longrightarrow> saved = old[idx := entry_of ia])
            \<and> (distinct (group_ids old) \<longrightarrow> distinct (group_ids saved))"
proof -
  let ?old = "normalized cv (fst (loadDB file))"
  let ?p = "\<lambda>g. extractGroupId (link g) = Some gid"
  have e: "extractGroupId (link (entry_of ia)) = Some gid"
    using assms(2) by (simp add: entry_of_def)
  have 1: "stored_groups (snd (add_group cv ownerId ia file))
             = map group_json (upsert gid (entry_of ia) ?old)"
    by (simp add: add_group_saves [OF assms] stored_groups_update)
  have 2: "(\<forall>g\<in>set ?old. \<not> ?p g) \<longrightarrow> upsert gid (entry_of ia) ?old = ?old @ [entry_of ia]"
    by (simp add: upsert_def findIndex_none)
  have 3: "\<forall>idx. idx < length ?old \<and> ?p (?old ! idx) \<and> (\<forall>j<idx. \<not> ?p (?old ! j))
             \<longrightarrow> upsert gid (entry_of ia) ?old = ?old[idx := entry_of ia]"
  proof (intro allI impI)
    fix idx
    assume a: "idx < length ?old \<and> ?p (?old ! idx) \<and> (\<forall>j<idx. \<not> ?p (?old ! j))"
    then have "findIndex ?p ?old = Some idx"
      by (intro findIndex_first) simp_all
    then show "upsert gid (entry_of ia) ?old = ?old[idx := entry_of ia]"
      by (simp add: upsert_def)
  qed
  have 4: "distinct (group_ids ?old) \<longrightarrow> distinct (group_ids (upsert gid (entry_of ia) ?old))"
    using distinct_group_ids_upsert [OF e] by blast
  from 1 2 3 4 show ?thesis
    unfolding Let_def by blast
qed


theorem add_group_upsert_by_id_witness:
  "stored_groups (snd (add_group cv0 ''owner''
       \<lparr>user_id = ''owner'', opt_name = '' New '', opt_link = ''roblox.com/communities/2'',
        opt_waitdays = Some 7\<rparr>
       (Some [(''groups'', JArr [JStr ''roblox.com/groups/1'', JStr ''roblox.com/groups/2''])])))
     = [group_json \<lparr>name = ''Group 1'', link = ''roblox.com/groups/1'', waitDays = 14\<rparr>,
        group_json \<lparr>name = ''New'', link = ''roblox.com/communities/2'', waitDays = 7\<rparr>]
   \<and> distinct (group_ids
        [\<lparr>name = ''Group 1'', link = ''roblox.com/groups/1'', waitDays = 14\<rparr>,
         \<lparr>name = ''New'', link = ''roblox.com/communities/2'', waitDays = 7\<rparr>])"
proof -
  let ?ia = "\<lparr>user_id = ''owner'', opt_name = '' New '', opt_link = ''roblox.com/communities/2'',
        opt_waitdays = Some 7\<rparr>"
  let ?file = "Some [(''groups'', JArr [JStr ''roblox.com/groups/1'', JStr ''roblox.com/groups/2''])]"
  let ?g1 = "\<lparr>name = ''Group 1'', link = ''roblox.com/groups/1'', waitDays = 14\<rparr>"
  let ?g2 = "\<lparr>name = ''Group 2'', link = ''roblox.com/groups/2'', waitDays = 14\<rparr>"
  let ?new = "\<lparr>name = ''New'', link = ''roblox.com/communities/2'', waitDays = 7\<rparr>"
  have h1: "user_id ?ia = ''owner''"
    by simp
  have h2: "extractGroupId (js_trim (opt_link ?ia)) = Some ''2''"
    by (simp add: js_trim_def js_whitespace_def regex_eval)
  have old: "normalized cv0 (fst (loadDB ?file)) = [?g1, ?g2]"
    by (simp add: loadDB_def normalized_def normalize_entry_def regex_eval)
  have ent: "entry_of ?ia = ?new"
    by (simp add: entry_of_def js_trim_def js_whitespace_def)
  have ids: "group_ids [?g1, ?g2] = [''1'', ''2'']"
    by (simp add: group_ids_def regex_eval)
  have first: "(1::nat) < length [?g1, ?g2] \<and> extractGroupId (link ([?g1, ?g2] ! 1)) = Some ''2''
      \<and> (\<forall>j<1. extractGroupId (link ([?g1, ?g2] ! j)) \<noteq> Some ''2'')"
    by (simp add: regex_eval)
  from add_group_upsert_by_id [OF h1 h2, of cv0 ?file]
  have st: "stored_groups (snd (add_group cv0 ''owner'' ?ia ?file))
              = map group_json (upsert ''2'' ?new [?g1, ?g2])"
    and rep: "\<forall>idx. idx < length [?g1, ?g2] \<and> extractGroupId (link ([?g1, ?g2] ! idx)) = Some ''2''
                    \<and> (\<forall>j<idx. extractGroupId (link ([?g1, ?g2] ! j)) \<noteq> Some ''2'')
                  \<longrightarrow> upsert ''2'' ?new [?g1, ?g2] = [?g1, ?g2][idx := ?new]"
    and dis: "distinct (group_ids [?g1, ?g2]) \<longrightarrow> distinct (group_ids (upsert ''2'' ?new [?g1, ?g2]))"
    unfolding Let_def old ent by blast+
  from rep first have up: "upsert ''2'' ?new [?g1, ?g2] = [?g1, ?g2][1 := ?new]"
    by blast
  from dis ids have "distinct (group_ids (upsert ''2'' ?new [?g1, ?g2]))"
    by simp
  with st show ?thesis
    unfolding up by simp
qed

section \<open>Properties of the cooldown\<close>

text \<open>
  C4 (as stated, refuted): the claim admits a trigger only if the elapsed time since the
  requester's last admission exceeds 5000 ms. A requester admitted at time 10000 who asks
  again at time 15000 has waited exactly 5000 ms, which does not exceed the window, and
  is admitted.
\<close>

theorem cooldown_boundary_counterexample:
  "fst (cooldown_check (Map.empty(''u1'' \<mapsto> 10000)) ''u1'' 15000)
   \<and> \<not> (15000 - last_scan (Map.empty(''u1'' \<mapsto> 10000)) ''u1'' > COOLDOWN_MS)"
  by (simp add: cooldown_check_def last_scan_def COOLDOWN_MS_def)

text \<open>
  C4 (amended): a trigger is admitted exactly when at least 5000 ms have passed since the
  requester's stored timestamp (0 when there is none); an admission stores the current
  time for that requester and touches no other requester; a rejection leaves the whole
  map, and so the requester's prior timestamp, as it was.
\<close>

theorem cooldown_check_admits:
  "fst (cooldown_check m a now) = (now - last_scan m a \<ge> COOLDOWN_MS)
   \<and> snd (cooldown_check m a now) = (if fst (cooldown_check m a now) then m(a \<mapsto> now) else m)
   \<and> last_scan (snd (cooldown_check m a now)) a
       = (if fst (cooldown_check m a now) then now else last_scan m a)
   \<and> (b \<noteq> a \<longrightarrow> last_scan (snd (cooldown_check m a now)) b = last_scan m b)"
  by (simp add: cooldown_check_def last_scan_def Let_def)

theorem cooldown_check_admits_witness:
  "fst (cooldown_check (Map.empty(''u1'' \<mapsto> 10000)) ''u1'' 12000) = False
   \<and> last_scan (snd (cooldown_check (Map.empty(''u1'' \<mapsto> 10000)) ''u1'' 12000)) ''u1'' = 10000
   \<and> fst (cooldown_check (Map.empty(''u1'' \<mapsto> 10000)) ''u1'' 15000) = True
   \<and> last_scan (snd (cooldown_check (Map.empty(''u1'' \<mapsto> 10000)) ''u1'' 15000)) ''u2'' = 0"
  using cooldown_check_admits [of "Map.empty(''u1'' \<mapsto> 10000)" "''u1''" 12000 "''u2''"]
    cooldown_check_admits [of "Map.empty(''u1'' \<mapsto> 10000)" "''u1''" 15000 "''u2''"]
  by (simp add: last_scan_def COOLDOWN_MS_def)

section \<open>Properties of the payout\<close>

lemmas payout_eval = robuxAfterFee_def times_0_7_def double_0_7_def round53_def bit_length.simps

text \<open>
  C1 (the program departs from the claim): the claim gives the payout of a positive
  integer price \<open>P\<close> as the floor of 7/10 of \<open>P\<close>. For the price 90 that is 63. The program
  multiplies by the binary64 number nearest to 0.7, which is below 7/10; the product with
  90 rounds to the binary64 number just below 63, and its floor is 62.
\<close>

theorem robuxAfterFee_90:
  "robuxAfterFee 90 = 62 \<and> (7 * 90) div 10 = (63::int)"
  by (simp add: payout_eval)

text \<open>
  Where the payout does equal the floor of 7/10 of the price: for every price from 0 up to
  \<open>2^48\<close> that is not a multiple of 10. At a multiple of 10 it is that floor or one less.
  The rounding moves the exact product by at most one part in \<open>2^53\<close>.
\<close>

lemma bit_length_upper: "n < 2 ^ bit_length n"
proof (induction n rule: bit_length.induct)
  case (1 n)
  show ?case
  proof (cases "n = 0")
    case True
    then show ?thesis by (simp add: bit_length.simps)
  next
    case False
    with 1 have "n div 2 < 2 ^ bit_length (n div 2)" by simp
    then have "n < 2 * 2 ^ bit_length (n div 2)" by arith
    with False show ?thesis by (subst bit_length.simps) simp
  qed
qed

lemma bit_length_lower: "n \<noteq> 0 \<Longrightarrow> 2 ^ (bit_length n - 1) \<le> n"
proof (induction n rule: bit_length.induct)
  case (1 n)
  show ?case
  proof (cases "n div 2 = 0")
    case True
    with 1 have "n = 1" by arith
    then show ?thesis by (simp add: bit_length.simps)
  next
    case False
    with 1 have ih: "2 ^ (bit_length (n div 2) - 1) \<le> n div 2" by simp
    have pos: "bit_length (n div 2) \<noteq> 0"
      using False by (subst bit_length.simps) simp
    have "bit_length n = Suc (bit_length (n div 2))"
      using 1(2) by (subst bit_length.simps) simp
    then have "(2::nat) ^ (bit_length n - 1) = 2 * 2 ^ (bit_length (n div 2) - 1)"
      using pos by (cases "bit_length (n div 2)") simp_all
    with ih show ?thesis by arith
  qed
qed

lemma round53_bounds: "n \<le> round53 n + n div 2 ^ 53 \<and> round53 n \<le> n + n div 2 ^ 53"
proof (cases "bit_length n - 53 = 0")
  case True
  then show ?thesis by (simp add: round53_def)
next
  case False
  define k where "k = bit_length n - 53"
  define q where "q = n div 2 ^ k"
  define r where "r = n mod 2 ^ k"
  define half :: nat where "half = 2 ^ (k - 1)"
  have k: "k \<noteq> 0" using False by (simp add: k_def)
  have "bit_length 0 = 0" by (simp add: bit_length.simps)
  with False have n0: "n \<noteq> 0" by (cases "n = 0") simp_all
  have two: "(2::nat) ^ k = 2 * half"
    using k by (cases k) (simp_all add: half_def)
  have n: "n = q * (2 * half) + r"
    unfolding q_def r_def two [symmetric] by (rule div_mult_mod_eq [symmetric])
  have r: "r < 2 * half"
    unfolding r_def two [symmetric] by simp
  have "bit_length n - 1 = (k - 1) + 53"
    using False k by (simp add: k_def)
  then have "half * 2 ^ 53 \<le> n"
    using bit_length_lower [OF n0] by (simp add: half_def power_add)
  then have h: "half \<le> n div 2 ^ 53"
    by (simp add: less_eq_div_iff_mult_less_eq)
  have rd: "round53 n = (if r < half \<or> (r = half \<and> even q) then q else q + 1) * (2 * half)"
    using False unfolding round53_def Let_def k_def [symmetric] q_def [symmetric]
      r_def [symmetric] half_def [symmetric] two [symmetric] by simp
  define A where "A = q * (2 * half)"
  define e where "e = n div 2 ^ 53"
  have nA: "n = A + r"
    using n by (simp add: A_def)
  have he: "half \<le> e"
    using h by (simp add: e_def)
  have "n \<le> round53 n + e \<and> round53 n \<le> n + e"
  proof (cases "r < half \<or> (r = half \<and> even q)")
    case True
    then have "round53 n = q * (2 * half)"
      unfolding rd by (simp only: if_True)
    then have "round53 n = A"
      by (simp add: A_def)
    moreover have "r \<le> half"
      using True by auto
    ultimately show ?thesis
      using nA he by arith
  next
    case False
    then have "round53 n = (q + 1) * (2 * half)"
      unfolding rd by (simp only: if_False)
    then have "round53 n = A + 2 * half"
      by (simp add: A_def)
    moreover have "half \<le> r"
      using False by auto
    ultimately show ?thesis
      using nA he r by arith
  qed
  then show ?thesis
    by (simp add: e_def)
qed

lemma times_0_7_exact:
  fixes P a b n :: nat
  assumes "7 * P = 10 * a + b" "n = 6305039478318694 * P"
  shows "10 * n + 4 * P = 9007199254740992 * (10 * a + b)"
proof -
  have "10 * n + 4 * P = 9007199254740992 * (7 * P)"
    using assms(2) by simp
  then show ?thesis
    using assms(1) by simp
qed

lemma times_0_7_error:
  fixes P e n :: nat
  assumes "9007199254740992 * e \<le> n" "n = 6305039478318694 * P"
  shows "10 * e \<le> 7 * P"
proof -
  have "9007199254740992 * (10 * e) \<le> 10 * n"
    using assms(1) by simp
  also have "\<dots> \<le> 9007199254740992 * (7 * P)"
    using assms(2) by simp
  finally show ?thesis
    by simp
qed


lemma times_0_7_floor:
  fixes P a b n e R :: nat
  assumes g1: "10 * n + 4 * P = 9007199254740992 * (10 * a + b)"
    and g2: "10 * e \<le> 7 * P"
    and f4: "n \<le> R + e" "R \<le> n + e"
    and f5: "P \<le> 281474976710656"
    and b: "b < 10"
  shows "b \<noteq> 0 \<longrightarrow> 9007199254740992 * a \<le> R"
    and "9007199254740992 * a \<le> R + 9007199254740992"
    and "R < 9007199254740992 * a + 9007199254740992"
proof -
  have g1': "10 * n + 4 * P = 90071992547409920 * a + 9007199254740992 * b"
    using g1 by (simp add: algebra_simps)
  show "b \<noteq> 0 \<longrightarrow> 9007199254740992 * a \<le> R"
    using g1' g2 f4 f5 b by linarith
  show "9007199254740992 * a \<le> R + 9007199254740992"
    using g1' g2 f4 f5 b by linarith
  show "R < 9007199254740992 * a + 9007199254740992"
    using g1' g2 f4 f5 b by linarith
qed


lemma round53_times_0_7:
  fixes P :: nat
  assumes "P \<le> 2 ^ 48"
  shows "(7 * P mod 10 \<noteq> 0 \<longrightarrow> round53 (P * double_0_7) div 2 ^ 53 = 7 * P div 10)
         \<and> 7 * P div 10 \<le> round53 (P * double_0_7) div 2 ^ 53 + 1
         \<and> round53 (P * double_0_7) div 2 ^ 53 \<le> 7 * P div 10"
proof -
  define a where "a = 7 * P div 10"
  define b where "b = 7 * P mod 10"
  define n where "n = P * double_0_7"
  define e where "e = n div 2 ^ 53"
  define R where "R = round53 n"
  have f1: "7 * P = 10 * a + b" and b: "b < 10"
    by (simp_all add: a_def b_def)
  have f2: "n = 6305039478318694 * P"
    by (simp add: n_def double_0_7_def)
  have f3: "9007199254740992 * e \<le> n"
    by (simp add: e_def)
  have f4: "n \<le> R + e" "R \<le> n + e"
    using round53_bounds [of n] by (simp_all add: R_def e_def)
  have f5: "P \<le> 281474976710656"
    using assms by simp
  note g1 = times_0_7_exact [OF f1 f2]
  note g2 = times_0_7_error [OF f3 f2]
  note fl = times_0_7_floor [OF g1 g2 f4 f5 b]
  have hi: "R < 9007199254740992 * Suc a"
    using fl(3) by simp
  have d1: "b \<noteq> 0 \<longrightarrow> R div 9007199254740992 = a"
    using fl(1) hi by (auto intro: div_nat_eqI)
  have d2: "a \<le> R div 9007199254740992 + 1"
  proof -
    have "9007199254740992 * (a - 1) \<le> R"
      using fl(2) by (cases a) simp_all
    then have "a - 1 \<le> R div 9007199254740992"
      by (simp add: less_eq_div_iff_mult_less_eq mult.commute)
    then show ?thesis by simp
  qed
  have d3: "R div 9007199254740992 \<le> a"
  proof -
    have "R div 9007199254740992 < Suc a"
      using hi by (simp add: div_less_iff_less_mult mult.commute)
    then show ?thesis by simp
  qed
  show ?thesis
    using d1 d2 d3 by (simp add: R_def n_def a_def b_def)
qed

lemma robuxAfterFee_nat: "robuxAfterFee (int P) = int (round53 (P * double_0_7) div 2 ^ 53)"
proof (cases "P = 0")
  case True
  then show ?thesis
    by (simp add: robuxAfterFee_def times_0_7_def round53_def bit_length.simps)
next
  case False
  then have "times_0_7 (int P) = int (round53 (P * double_0_7))"
    by (simp add: times_0_7_def)
  then show ?thesis
    by (simp add: robuxAfterFee_def zdiv_int)
qed

lemma robuxAfterFee_near_floor:
  assumes "0 \<le> p" "p \<le> 2 ^ 48"
  shows "(p mod 10 \<noteq> 0 \<longrightarrow> robuxAfterFee p = 7 * p div 10)
         \<and> 7 * p div 10 - 1 \<le> robuxAfterFee p
         \<and> robuxAfterFee p \<le> 7 * p div 10"
proof -
  define P where "P = nat p"
  have p: "p = int P" and P: "P \<le> 2 ^ 48"
    using assms by (simp_all add: P_def nat_le_iff)
  have m: "p mod 10 \<noteq> 0 \<Longrightarrow> 7 * P mod 10 \<noteq> 0"
    unfolding p by presburger
  have q: "7 * p div 10 = int (7 * P div 10)"
    unfolding p by (simp add: zdiv_int)
  show ?thesis
    using round53_times_0_7 [OF P] m
    unfolding q robuxAfterFee_nat p by auto
qed

text \<open>The payout of the price 0 is 0, and the prices 100 and 200 give 70 and 140.\<close>

lemma robuxAfterFee_examples:
  "robuxAfterFee 0 = 0 \<and> robuxAfterFee 1 = 0 \<and> robuxAfterFee 100 = 70 \<and> robuxAfterFee 200 = 140"
  by (simp add: payout_eval)

text \<open>A product information without a price in any of the three fields reads as the
  price 0.\<close>

lemma price_of_missing:
  assumes "get_prop info ''PriceInRobux'' \<in> {None, Some JNull}"
    and "get_prop info ''priceInRobux'' \<in> {None, Some JNull}"
    and "get_prop info ''price'' \<in> {None, Some JNull}"
    and "info \<noteq> JNull"
  shows "price_of cv info = Inr (Num 0)"
  using assms by (auto simp: price_of_def coalesce_def js_Number_def)

section \<open>Properties of the retrying fetch\<close>

lemma fw_loop_done:
  assumes "int attempt \<le> maxRetries" "fetch attempt = Inr res"
    "status res \<noteq> 429 \<or> int attempt = maxRetries"
  shows "fetchWithRetry_loop cv fetch maxRetries attempt lastRes evs
           = (Inr (Some res), evs @ [Fetched attempt])"
  using assms by (subst fetchWithRetry_loop.simps) auto

lemma fw_loop_retry:
  assumes "int attempt < maxRetries" "fetch attempt = Inr res" "status res = 429"
  shows "fetchWithRetry_loop cv fetch maxRetries attempt lastRes evs
           = fetchWithRetry_loop cv fetch maxRetries (attempt + 1) (Some res)
               (evs @ [Fetched attempt, Slept (waitMs cv attempt res)])"
  using assms by (subst fetchWithRetry_loop.simps) auto

lemma fw_loop_run:
  assumes "int (a + n) \<le> maxRetries"
    and "\<forall>k\<le>a + n. fetch k = Inr (r k)"
    and "\<forall>k. a \<le> k \<and> k < a + n \<longrightarrow> status (r k) = 429"
    and "status (r (a + n)) \<noteq> 429 \<or> int (a + n) = maxRetries"
  shows "fetchWithRetry_loop cv fetch maxRetries a lastRes evs
           = (Inr (Some (r (a + n))),
              evs @ concat (map (\<lambda>k. [Fetched k, Slept (waitMs cv k (r k))]) [a..<a + n])
                  @ [Fetched (a + n)])"
  using assms
proof (induction n arbitrary: a lastRes evs)
  case 0
  then show ?case
    by (simp add: fw_loop_done)
next
  case (Suc n)
  have a: "int a < maxRetries" "fetch a = Inr (r a)" "status (r a) = 429"
    using Suc.prems by auto
  have step: "fetchWithRetry_loop cv fetch maxRetries a lastRes evs
        = fetchWithRetry_loop cv fetch maxRetries (Suc a) (Some (r a))
            (evs @ [Fetched a, Slept (waitMs cv a (r a))])"
    using fw_loop_retry [of a maxRetries fetch "r a" cv lastRes evs] a by simp
  have ih: "fetchWithRetry_loop cv fetch maxRetries (Suc a) (Some (r a))
          (evs @ [Fetched a, Slept (waitMs cv a (r a))])
        = (Inr (Some (r (Suc a + n))),
           (evs @ [Fetched a, Slept (waitMs cv a (r a))])
             @ concat (map (\<lambda>k. [Fetched k, Slept (waitMs cv k (r k))]) [Suc a..<Suc a + n])
             @ [Fetched (Suc a + n)])"
    using Suc.prems by (intro Suc.IH) auto
  have upt: "[a..<a + Suc n] = a # [Suc a..<Suc a + n]"
    by (simp add: upt_conv_Cons del: upt_Suc)
  show ?case
    unfolding step ih upt by simp
qed

text \<open>
  What the loop does, for every sequence of outcomes of \<^verbatim>\<open>fetch\<close> and every \<open>maxRetries\<close>
  that is not negative. \<open>n\<close> is the number of throttled attempts before the attempt that
  returns: the first response whose status is not 429 is returned at once, on the attempt
  that produced it; each throttled attempt before it is followed by one wait; at most
  \<open>maxRetries\<close> attempts follow the first, and when all of them are throttled the last
  throttled response is returned, not an error.
\<close>

lemma fetchWithRetry_policy:
  assumes "int n \<le> maxRetries"
    and "\<forall>k\<le>n. fetch k = Inr (r k)"
    and "\<forall>k<n. status (r k) = 429"
    and "status (r n) \<noteq> 429 \<or> int n = maxRetries"
  shows "fetchWithRetry cv fetch maxRetries
           = (Inr (Some (r n)),
              concat (map (\<lambda>k. [Fetched k, Slept (waitMs cv k (r k))]) [0..<n]) @ [Fetched n])"
proof -
  have "fetchWithRetry_loop cv fetch maxRetries 0 None []
          = (Inr (Some (r (0 + n))),
             [] @ concat (map (\<lambda>k. [Fetched k, Slept (waitMs cv k (r k))]) [0..<0 + n])
                @ [Fetched (0 + n)])"
    using assms by (intro fw_loop_run) auto
  then show ?thesis
    by (simp add: fetchWithRetry_def)
qed

text \<open>With a negative \<open>maxRetries\<close> no attempt is made and the result is \<^verbatim>\<open>null\<close>.\<close>

lemma fetchWithRetry_negative:
  "maxRetries < 0 \<Longrightarrow> fetchWithRetry cv fetch maxRetries = (Inr None, [])"
  by (simp add: fetchWithRetry_def fetchWithRetry_loop.simps)

text \<open>
  The wait without a hint is \<open>1500 * (attempt + 1)\<close> ms. With a hint that reads as a whole
  number of seconds (of a magnitude up to \<open>2^43\<close>) every step is exact and the wait is the
  greater of 1000 and the seconds times 1000.
\<close>

lemma waitMs_no_hint:
  "retry_after res = None \<or> retry_after res = Some [] \<Longrightarrow>
   waitMs cv attempt res = Dyadic (1500 * (int attempt + 1)) 0"
  by (auto simp: waitMs_def)

lemma bit_length_small: "n < 2 ^ 53 \<Longrightarrow> bit_length n \<le> 53"
proof (cases "n = 0")
  case True
  then show ?thesis
    by (simp add: bit_length.simps)
next
  case False
  assume "n < 2 ^ 53"
  with bit_length_lower [OF False] have "(2::nat) ^ (bit_length n - 1) < 2 ^ 53"
    by (rule le_less_trans)
  then have "bit_length n - 1 < 53"
    by (rule power_less_imp_less_exp [rotated]) simp
  then show ?thesis
    by simp
qed

lemma round53_small: "n < 2 ^ 53 \<Longrightarrow> round53 n = n"
  using bit_length_small [of n] by (simp add: round53_def)

lemma times_1000_small:
  assumes "nat \<bar>m\<bar> * 1000 < 2 ^ 53" "e \<le> 0"
  shows "times_1000 (Dyadic m e) = Dyadic (m * 1000) e"
proof -
  define n where "n = nat \<bar>m\<bar> * 1000"
  have r: "round53 n = n" and b: "bit_length n \<le> 53"
    using assms(1) by (simp_all add: n_def round53_small bit_length_small)
  have i: "sgn m * int n = m * 1000"
    by (simp add: n_def sgn_if)
  have "times_1000 (Dyadic m e)
          = (let r = round53 n in
             if int (bit_length r) + e > 1024 then (if m < 0 then NegInf else PosInf)
             else Dyadic (sgn m * int r) e)"
    by (simp only: times_1000_def double.case n_def)
  also have "\<dots> = (if int (bit_length n) + e > 1024 then (if m < 0 then NegInf else PosInf)
             else Dyadic (sgn m * int n) e)"
    by (simp only: Let_def r)
  also have "\<dots> = Dyadic (m * 1000) e"
    using b assms(2) by (simp add: i)
  finally show ?thesis .
qed

lemma waitMs_whole_seconds:
  assumes "retry_after res = Some s" "s \<noteq> []"
    and "string_to_double cv s = Dyadic secs 0"
    and "\<bar>secs\<bar> \<le> 2 ^ 43"
  shows "waitMs cv attempt res = Dyadic (max 1000 (secs * 1000)) 0"
proof -
  have "nat \<bar>secs\<bar> \<le> 2 ^ 43"
    using assms(4) by (simp add: nat_le_iff)
  then have "nat \<bar>secs\<bar> * 1000 < 2 ^ 53"
    by simp
  then have t: "times_1000 (Dyadic secs 0) = Dyadic (secs * 1000) 0"
    by (rule times_1000_small) simp
  show ?thesis
    using assms(1-3) by (simp add: waitMs_def t Math_ceil_def Math_max_1000_def max_def)
qed

text \<open>With a hint that does not read as a number the value passed to \<^verbatim>\<open>sleep\<close> is NaN.\<close>

lemma waitMs_not_number:
  "retry_after res = Some s \<Longrightarrow> s \<noteq> [] \<Longrightarrow> string_to_double cv s = NotNumber \<Longrightarrow>
   waitMs cv attempt res = NotNumber"
  by (simp add: waitMs_def times_1000_def Math_ceil_def Math_max_1000_def)

text \<open>
  C2 (the program departs from the claim): the claim has the function wait
  \<open>max(1000 ms, ceil(retry-after * 1000))\<close> whenever the throttled response carries a
  \<^verbatim>\<open>retry-after\<close> hint. A hint in the date form of the header is not the text of a
  number: \<^verbatim>\<open>Number\<close> gives NaN, \<^verbatim>\<open>Math.max(1000, NaN)\<close> is NaN, and the function sleeps
  NaN ms, which is no wait of 1000 ms or more, before it tries again. With the hint
  \<^verbatim>\<open>2.007\<close> the product \<^verbatim>\<open>Number("2.007") * 1000\<close> is the binary64 number just above 2007 and
  the function waits 2008 ms, where \<open>ceil(2.007 * 1000)\<close> is 2007. The rest of what the
  claim says (the return on the first response that is not throttled, the wait without a
  hint, the number of attempts and the return of the last throttled response) is what the
  lemmas above show.
\<close>

theorem fetchWithRetry_hint_not_floored:
  "fetchWithRetry cv0
     (\<lambda>k. Inr (if k = 0
               then \<lparr>status = 429, retry_after = Some ''Wed, 21 Oct 2015 07:28:00 GMT'',
                     body = None\<rparr>
               else \<lparr>status = 200, retry_after = None, body = None\<rparr>)) 3
   = (Inr (Some \<lparr>status = 200, retry_after = None, body = None\<rparr>),
      [Fetched 0, Slept NotNumber, Fetched 1])
   \<and> fetchWithRetry cv0
     (\<lambda>k. Inr (if k = 0
               then \<lparr>status = 429, retry_after = Some ''2.007'', body = None\<rparr>
               else \<lparr>status = 200, retry_after = None, body = None\<rparr>)) 3
   = (Inr (Some \<lparr>status = 200, retry_after = None, body = None\<rparr>),
      [Fetched 0, Slept (Dyadic 2008 0), Fetched 1])"
proof -
  have w1: "waitMs cv0 0 \<lparr>status = 429, retry_after = Some ''Wed, 21 Oct 2015 07:28:00 GMT'',
                     body = None\<rparr> = NotNumber"
    by (simp add: waitMs_def cv0_def times_1000_def Math_ceil_def Math_max_1000_def)
  have r: "round53 4519362226066293000 = 4519362226066293248"
    by (simp add: round53_def bit_length.simps)
  have b: "bit_length 4519362226066293248 = 62"
    by (simp add: bit_length.simps)
  have t: "times_1000 (Dyadic 4519362226066293 (- 51)) = Dyadic 4519362226066293248 (- 51)"
    by (simp add: times_1000_def r b Let_def)
  have c: "Math_ceil (Dyadic 4519362226066293248 (- 51)) = Dyadic 2008 0"
    by (simp add: Math_ceil_def)
  have w2: "waitMs cv0 0 \<lparr>status = 429, retry_after = Some ''2.007'', body = None\<rparr>
              = Dyadic 2008 0"
    by (simp add: waitMs_def cv0_def t c Math_max_1000_def)
  have s: "fetchWithRetry_loop cv0 fetch 3 0 None []
        = (Inr (Some res1), [Fetched 0, Slept (waitMs cv0 0 res0), Fetched 1])"
    if "fetch 0 = Inr res0" "status res0 = 429" "fetch 1 = Inr res1" "status res1 \<noteq> 429"
    for fetch res0 res1
    using that fw_loop_retry [of 0 3 fetch res0 cv0 None "[]"]
      fw_loop_done [of 1 3 fetch res1 cv0 "Some res0" "[Fetched 0, Slept (waitMs cv0 0 res0)]"]
    by simp
  show ?thesis
    unfolding fetchWithRetry_def
    by (simp add: s w1 w2)
qed

text \<open>An example of the loop: a hint of 2 seconds, then no hint, then a response that is
  not throttled; and two throttled responses with one retry allowed.\<close>

lemma fetchWithRetry_policy_example:
  "fetchWithRetry cv0
     (\<lambda>k. Inr (if k = 0 then \<lparr>status = 429, retry_after = Some ''2'', body = None\<rparr>
               else if k = 1 then \<lparr>status = 429, retry_after = None, body = None\<rparr>
               else \<lparr>status = 503, retry_after = None, body = None\<rparr>)) 3
   = (Inr (Some \<lparr>status = 503, retry_after = None, body = None\<rparr>),
      [Fetched 0, Slept (Dyadic 2000 0), Fetched 1, Slept (Dyadic 3000 0), Fetched 2])
   \<and> fetchWithRetry cv0 (\<lambda>k. Inr \<lparr>status = 429, retry_after = None, body = None\<rparr>) 1
   = (Inr (Some \<lparr>status = 429, retry_after = None, body = None\<rparr>),
      [Fetched 0, Slept (Dyadic 1500 0), Fetched 1])"
proof -
  let ?r = "\<lambda>k::nat. if k = 0 then \<lparr>status = 429, retry_after = Some ''2'', body = None\<rparr>
               else if k = 1 then \<lparr>status = 429, retry_after = None, body = None\<rparr>
               else \<lparr>status = 503, retry_after = None, body = None\<rparr>"
  let ?t = "\<lambda>k::nat. \<lparr>status = 429, retry_after = None, body = None\<rparr>"
  have "string_to_double cv0 ''2'' = Dyadic 2 0"
    by (simp add: cv0_def)
  then have w0: "waitMs cv0 0 (?r 0) = Dyadic (max 1000 (2 * 1000)) 0"
    by (intro waitMs_whole_seconds [of _ "''2''"]) simp_all
  have w: "waitMs cv0 1 (?r 1) = Dyadic 3000 0" "waitMs cv0 0 (?t 0) = Dyadic 1500 0"
    by (simp_all add: waitMs_def)
  have u: "[0..<2] = [0, Suc 0]" "[0..<1] = [0]"
    by (simp_all add: upt_conv_Cons)
  have a: "fetchWithRetry cv0 (\<lambda>k. Inr (?r k)) 3
      = (Inr (Some (?r 2)),
         concat (map (\<lambda>k. [Fetched k, Slept (waitMs cv0 k (?r k))]) [0..<2]) @ [Fetched 2])"
    using fetchWithRetry_policy [of 2 3 "\<lambda>k. Inr (?r k)" ?r cv0]
    by (simp add: less_Suc_eq numeral_2_eq_2)
  have b: "fetchWithRetry cv0 (\<lambda>k. Inr (?t k)) 1
      = (Inr (Some (?t 1)),
         concat (map (\<lambda>k. [Fetched k, Slept (waitMs cv0 k (?t k))]) [0..<1]) @ [Fetched 1])"
    using fetchWithRetry_policy [of 1 1 "\<lambda>k. Inr (?t k)" ?t cv0]
    by simp
  show ?thesis
    using a b w w0 unfolding u by simp
qed

section \<open>Properties of the scan of the listings\<close>

lemma scan_loop_append:
  "scan_loop cv net cookie ids i blocks
     = blocks @ map (\<lambda>k. scanListing cv net cookie (i + k) (ids ! k)) [0..<length ids]"
proof (induction ids arbitrary: i blocks)
  case Nil
  show ?case by simp
next
  case (Cons g ids)
  have "map (\<lambda>k. scanListing cv net cookie (i + k) ((g # ids) ! k)) [0..<length (g # ids)]
        = scanListing cv net cookie i g
          # map (\<lambda>k. scanListing cv net cookie (i + 1 + k) (ids ! k)) [0..<length ids]"
  proof -
    have "[0..<length (g # ids)] = 0 # map Suc [0..<length ids]"
      by (simp add: upt_conv_Cons map_Suc_upt del: upt_Suc)
    then show ?thesis
      by (simp add: o_def)
  qed
  then show ?case
    by (simp add: Cons.IH)
qed

lemma scan_blocks_nth:
  "length (scan_blocks cv net cookie ids) = length ids
   \<and> (\<forall>k<length ids. scan_blocks cv net cookie ids ! k = scanListing cv net cookie (k + 1) (ids ! k))"
  by (simp add: scan_blocks_def scan_loop_append)

lemma scanListing_failed:
  "fetchGamePassInfo net gpId = Inl e \<Longrightarrow>
   scanListing cv net cookie i gpId = ScanFailed i (listing_link gpId) e"
  by (simp add: scanListing_def)

lemma fetchGamePassInfo_not_ok:
  "net (info_url gpId) 0 = Inr res \<Longrightarrow> \<not> ok res \<Longrightarrow>
   fetchGamePassInfo net gpId = Inl (FetchInfoFailed (status res))"
  by (simp add: fetchGamePassInfo_def)

lemma scanListing_details_failed:
  assumes "fetchGamePassInfo net gpId = Inr info" "price_of cv info = Inr (Num p)" "p \<noteq> 0"
    and "fetchGamePassDetails cv net cookie gpId = Inl e"
  shows "scanListing cv net cookie i gpId
           = PayoutUnverified i (listing_link gpId) p (robuxAfterFee p)"
  using assms by (simp add: scanListing_def regional_check_def)

lemma fetchGamePassDetails_no_cookie:
  "cookie = None \<or> cookie = Some [] \<Longrightarrow> fetchGamePassDetails cv net cookie gpId = Inl CookieNotSet"
  by (auto simp: fetchGamePassDetails_def)

lemma fetchGamePassDetails_not_ok:
  assumes "cookie = Some c" "c \<noteq> []"
    and "fst (fetchWithRetry cv (net (details_url gpId)) 3) = Inr (Some res)" "\<not> ok res"
  shows "fetchGamePassDetails cv net cookie gpId = Inl (FetchDetailsFailed (status res))"
  using assms by (simp add: fetchGamePassDetails_def)

lemma scanListing_unreadable:
  assumes "fetchGamePassInfo net gpId = Inr info"
    and "price_of cv info = Inr NaN \<or> price_of cv info = Inr (Num 0)"
  shows "scanListing cv net cookie i gpId = PriceUnreadable i (listing_link gpId)"
  using assms by (auto simp: scanListing_def)


lemma block_error_scanListing:
  assumes "fetchGamePassInfo net gpId = Inr info" "info \<noteq> JNull"
  shows "block_error (scanListing cv net cookie i gpId) = None"
  using assms
  by (simp add: scanListing_def price_of_def Let_def split: jsnum.splits prod.splits)

text \<open>
  C5: in one scan every listing reference gets its block, whatever happens to the others:
  the block at each position is the result for that position's reference alone. A
  reference whose product-info fetch fails (a status outside 200 to 299 is such a failure)
  gets the error block, which carries no price and no payout; a reference whose
  product-info fetch returns an object does not get an error block.
\<close>

theorem scan_blocks_failure_isolated:
  "length (scan_blocks cv net cookie ids) = length ids
   \<and> (\<forall>k<length ids.
         scan_blocks cv net cookie ids ! k = scanListing cv net cookie (k + 1) (ids ! k))
   \<and> (\<forall>k<length ids. \<forall>e. fetchGamePassInfo net (ids ! k) = Inl e \<longrightarrow>
         scan_blocks cv net cookie ids ! k = ScanFailed (k + 1) (listing_link (ids ! k)) e
         \<and> block_price (scan_blocks cv net cookie ids ! k) = None
         \<and> block_payout (scan_blocks cv net cookie ids ! k) = None)
   \<and> (\<forall>k<length ids. \<forall>res. net (info_url (ids ! k)) 0 = Inr res \<and> \<not> ok res \<longrightarrow>
         fetchGamePassInfo net (ids ! k) = Inl (FetchInfoFailed (status res)))
   \<and> (\<forall>k<length ids. \<forall>info. fetchGamePassInfo net (ids ! k) = Inr info \<and> info \<noteq> JNull \<longrightarrow>
         block_error (scan_blocks cv net cookie ids ! k) = None)"
  by (simp add: scan_blocks_nth scanListing_failed fetchGamePassInfo_not_ok
      block_error_scanListing)

theorem scan_blocks_failure_isolated_witness:
  "scan_blocks cv0
     (\<lambda>url k. if url = info_url ''1'' then Inr \<lparr>status = 500, retry_after = None, body = None\<rparr>
              else Inr \<lparr>status = 200, retry_after = None,
                         body = Some (JObj [(''PriceInRobux'', JNum 100)])\<rparr>)
     None [''1'', ''2'']
   = [ScanFailed 1 ''https://www.roblox.com/game-pass/1'' (FetchInfoFailed 500),
      PayoutUnverified 2 ''https://www.roblox.com/game-pass/2'' 100 70]"
proof -
  let ?net = "\<lambda>url k::nat. if url = info_url ''1''
              then Inr \<lparr>status = 500, retry_after = None, body = None\<rparr>
              else Inr \<lparr>status = 200, retry_after = None,
                         body = Some (JObj [(''PriceInRobux'', JNum 100)])\<rparr>"
  let ?bs = "scan_blocks cv0 ?net None [''1'', ''2'']"
  have f1: "fetchGamePassInfo ?net ([''1'', ''2''] ! 0) = Inl (FetchInfoFailed 500)"
    by (simp add: fetchGamePassInfo_def ok_def)
  have s2: "scanListing cv0 ?net None (1 + 1) ([''1'', ''2''] ! 1)
             = PayoutUnverified 2 ''https://www.roblox.com/game-pass/2'' 100 70"
    by (simp add: scanListing_def fetchGamePassInfo_def ok_def info_url_def price_of_def
        get_prop_def coalesce_def js_Number_def regional_check_def fetchGamePassDetails_def
        listing_link_def payout_eval)
  note t = scan_blocks_failure_isolated [of cv0 ?net None "[''1'', ''2'']"]
  from t have len: "length ?bs = 2"
    by simp
  from t f1 have b0: "?bs ! 0 = ScanFailed (0 + 1) (listing_link ([''1'', ''2''] ! 0)) (FetchInfoFailed 500)"
    by (metis length_Cons zero_less_Suc)
  from t have "?bs ! 1 = scanListing cv0 ?net None (1 + 1) ([''1'', ''2''] ! 1)"
    by simp
  with s2 have b1: "?bs ! 1 = PayoutUnverified 2 ''https://www.roblox.com/game-pass/2'' 100 70"
    by simp
  have "?bs = [?bs ! 0, ?bs ! 1]"
    using len by (cases ?bs) (auto simp: length_Suc_conv numeral_2_eq_2)
  then show ?thesis
    unfolding b0 b1 by (simp add: listing_link_def)
qed

text \<open>
  C6: when the product information of a listing gives a positive price, a failure of the
  pricing-experiment lookup (no credential in the environment, a response with a status
  outside 200 to 299 after the retries, or any other error of the lookup) does not fail
  the listing: its block reports the price and the payout computed from it, with the
  regional-pricing indicator unknown and the remark that regional pricing could not be
  checked; it is not the block of a listing that was checked and found without regional
  pricing.
\<close>

theorem scanListing_secondary_failure:
  assumes "fetchGamePassInfo net gpId = Inr info"
    and "price_of cv info = Inr (Num p)"
    and "0 < p"
    and "cookie = None
         \<or> (\<exists>res. fst (fetchWithRetry cv (net (details_url gpId)) 3) = Inr (Some res) \<and> \<not> ok res)
         \<or> (\<exists>e. fetchGamePassDetails cv net cookie gpId = Inl e)"
  shows "scanListing cv net cookie i gpId
           = PayoutUnverified i (listing_link gpId) p (robuxAfterFee p)
         \<and> block_price (scanListing cv net cookie i gpId) = Some p
         \<and> block_payout (scanListing cv net cookie i gpId) = Some (robuxAfterFee p)
         \<and> block_regional (scanListing cv net cookie i gpId) = None
         \<and> block_error (scanListing cv net cookie i gpId) = None"
proof -
  have "\<exists>e. fetchGamePassDetails cv net cookie gpId = Inl e"
    using assms(4) by (auto simp: fetchGamePassDetails_def)
  then obtain e where "fetchGamePassDetails cv net cookie gpId = Inl e"
    by blast
  with assms(1-3) have "scanListing cv net cookie i gpId
           = PayoutUnverified i (listing_link gpId) p (robuxAfterFee p)"
    by (intro scanListing_details_failed) auto
  then show ?thesis
    by simp
qed

theorem scanListing_secondary_failure_witness:
  "scanListing cv0
     (\<lambda>url k. Inr \<lparr>status = 200, retry_after = None,
                    body = Some (JObj [(''PriceInRobux'', JNum 100)])\<rparr>)
     None 1 ''7''
   = PayoutUnverified 1 ''https://www.roblox.com/game-pass/7'' 100 70
   \<and> scanListing cv0
     (\<lambda>url k. if url = details_url ''7'' then Inr \<lparr>status = 403, retry_after = None, body = None\<rparr>
              else Inr \<lparr>status = 200, retry_after = None,
                         body = Some (JObj [(''price'', JNum 200)])\<rparr>)
     (Some ''secret'') 1 ''7''
   = PayoutUnverified 1 ''https://www.roblox.com/game-pass/7'' 200 140"
proof -
  let ?n1 = "\<lambda>(url::string) k::nat. Inr \<lparr>status = 200, retry_after = None,
                    body = Some (JObj [(''PriceInRobux'', JNum 100)])\<rparr> :: error + response"
  let ?n2 = "\<lambda>url k::nat. if url = details_url ''7''
              then Inr \<lparr>status = 403, retry_after = None, body = None\<rparr>
              else Inr \<lparr>status = 200, retry_after = None,
                         body = Some (JObj [(''price'', JNum 200)])\<rparr> :: error + response"
  have i1: "fetchGamePassInfo ?n1 ''7'' = Inr (JObj [(''PriceInRobux'', JNum 100)])"
    by (simp add: fetchGamePassInfo_def ok_def)
  have p1: "price_of cv0 (JObj [(''PriceInRobux'', JNum 100)]) = Inr (Num 100)"
    by (simp add: price_of_def get_prop_def coalesce_def js_Number_def)
  have i2: "fetchGamePassInfo ?n2 ''7'' = Inr (JObj [(''price'', JNum 200)])"
    by (simp add: fetchGamePassInfo_def ok_def info_url_def details_url_def)
  have p2: "price_of cv0 (JObj [(''price'', JNum 200)]) = Inr (Num 200)"
    by (simp add: price_of_def get_prop_def coalesce_def js_Number_def)
  have d2: "fst (fetchWithRetry cv0 (?n2 (details_url ''7'')) 3)
              = Inr (Some \<lparr>status = 403, retry_after = None, body = None\<rparr>)
            \<and> \<not> ok \<lparr>status = 403, retry_after = None, body = None\<rparr>"
    by (simp add: fetchWithRetry_def fetchWithRetry_loop.simps ok_def)
  have r: "robuxAfterFee 100 = 70" "robuxAfterFee 200 = 140"
    by (simp_all add: payout_eval)
  have a: "scanListing cv0 ?n1 None 1 ''7''
             = PayoutUnverified 1 (listing_link ''7'') 100 (robuxAfterFee 100)"
    using scanListing_secondary_failure [OF i1 p1, of None 1] by simp
  have b: "scanListing cv0 ?n2 (Some ''secret'') 1 ''7''
             = PayoutUnverified 1 (listing_link ''7'') 200 (robuxAfterFee 200)"
  proof -
    have h: "Some ''secret'' = None
         \<or> (\<exists>res. fst (fetchWithRetry cv0 (?n2 (details_url ''7'')) 3) = Inr (Some res) \<and> \<not> ok res)
         \<or> (\<exists>e. fetchGamePassDetails cv0 ?n2 (Some ''secret'') ''7'' = Inl e)"
      using d2 by blast
    have "(0::int) < 200"
      by simp
    from scanListing_secondary_failure [OF i2 p2 this h, of 1] show ?thesis
      by blast
  qed
  show ?thesis
    unfolding a b r by (simp add: listing_link_def)
qed

section \<open>Properties of the report in chunks\<close>

lemma js_trim_nonempty:
  assumes "\<exists>c\<in>set s. \<not> js_whitespace c"
  shows "js_trim s \<noteq> []"
proof -
  let ?d = "dropWhile js_whitespace s"
  have ne: "?d \<noteq> []"
    using assms by (simp add: dropWhile_eq_Nil_conv)
  then have "\<not> js_whitespace (hd ?d)"
    by (rule hd_dropWhile)
  moreover have "hd ?d \<in> set (rev ?d)"
    using ne by simp
  ultimately have "dropWhile js_whitespace (rev ?d) \<noteq> []"
    by (auto simp: dropWhile_eq_Nil_conv)
  then show ?thesis
    by (simp add: js_trim_def)
qed

lemma joined_append: "joined (g @ h) = joined g @ joined h"
  by (simp add: joined_def)

lemma joined_single: "joined [b] = b @ ''\<newline>''"
  by (simp add: joined_def)

lemma chunk_loop_groups:
  assumes "\<forall>b\<in>set bs. length b < 1800" "length (joined g0) \<le> 1800"
  shows "\<exists>gs g'. chunk_loop bs cs (joined g0) = (cs @ map joined gs, joined g')
           \<and> concat gs @ g' = g0 @ bs
           \<and> (\<forall>g\<in>set gs. g \<noteq> [] \<and> length (joined g) \<le> 1800)
           \<and> length (joined g') \<le> 1800
           \<and> (g0 @ bs \<noteq> [] \<longrightarrow> g' \<noteq> [])"
  using assms
proof (induction bs arbitrary: cs g0)
  case Nil
  have "chunk_loop [] cs (joined g0) = (cs @ map joined [], joined g0)
        \<and> concat [] @ g0 = g0 @ []
        \<and> (\<forall>g\<in>set []. g \<noteq> [] \<and> length (joined g) \<le> 1800)
        \<and> length (joined g0) \<le> 1800 \<and> (g0 @ [] \<noteq> [] \<longrightarrow> g0 \<noteq> [])"
    using Nil by simp
  then show ?case by blast
next
  case (Cons b bs)
  have b: "length b < 1800" and bs: "\<forall>b\<in>set bs. length b < 1800"
    using Cons.prems(1) by simp_all
  show ?case
  proof (cases "length (joined g0 @ b @ ''\<newline>'') > 1800")
    case True
    have g0: "g0 \<noteq> []"
      using True b by (auto simp: joined_def)
    have "length (joined [b]) \<le> 1800"
      using b by (simp add: joined_def)
    from Cons.IH [OF bs this, of "cs @ [joined g0]"] obtain gs g' where
      r: "chunk_loop bs (cs @ [joined g0]) (joined [b]) = ((cs @ [joined g0]) @ map joined gs, joined g')"
      and c: "concat gs @ g' = [b] @ bs"
      and l: "\<forall>g\<in>set gs. g \<noteq> [] \<and> length (joined g) \<le> 1800"
      and l': "length (joined g') \<le> 1800" and n: "[b] @ bs \<noteq> [] \<longrightarrow> g' \<noteq> []"
      by blast
    have "chunk_loop (b # bs) cs (joined g0) = (cs @ map joined (g0 # gs), joined g')"
      using True r by (simp add: joined_single)
    moreover have "concat (g0 # gs) @ g' = g0 @ b # bs"
      using c by simp
    moreover have "\<forall>g\<in>set (g0 # gs). g \<noteq> [] \<and> length (joined g) \<le> 1800"
      using l g0 Cons.prems(2) by simp
    moreover have "g0 @ b # bs \<noteq> [] \<longrightarrow> g' \<noteq> []"
      using n by simp
    ultimately show ?thesis
      using l' by blast
  next
    case False
    then have "length (joined (g0 @ [b])) \<le> 1800"
      by (simp add: joined_append joined_single)
    from Cons.IH [OF bs this, of cs] obtain gs g' where
      r: "chunk_loop bs cs (joined (g0 @ [b])) = (cs @ map joined gs, joined g')"
      and c: "concat gs @ g' = (g0 @ [b]) @ bs"
      and l: "\<forall>g\<in>set gs. g \<noteq> [] \<and> length (joined g) \<le> 1800"
      and l': "length (joined g') \<le> 1800" and n: "(g0 @ [b]) @ bs \<noteq> [] \<longrightarrow> g' \<noteq> []"
      by blast
    have "chunk_loop (b # bs) cs (joined g0) = (cs @ map joined gs, joined g')"
      using False r by (simp add: joined_append joined_single)
    moreover have "concat gs @ g' = g0 @ b # bs"
      using c by simp
    moreover have "g0 @ b # bs \<noteq> [] \<longrightarrow> g' \<noteq> []"
      using n by simp
    ultimately show ?thesis
      using l l' by blast
  qed
qed

lemma chunk_blocks_oversize:
  assumes "1800 \<le> length b" "\<exists>c\<in>set b. \<not> js_whitespace c"
  shows "chunk_blocks [b] = ['''', b @ ''\<newline>'']"
proof -
  have "js_trim (b @ ''\<newline>'') \<noteq> []"
    using assms(2) by (intro js_trim_nonempty) auto
  then show ?thesis
    using assms(1) by (simp add: chunk_blocks_def)
qed

text \<open>
  C7 (as stated, refuted): the claim holds for every sequence of blocks. A block of 1800
  characters or more (the block of a listing carries its identifier, which may be as long
  as the message that held the link) cannot fit the budget with its line feed: the loop
  pushes the empty buffer as a chunk and then the block alone, and that chunk is over the
  budget of 1800 characters.
\<close>

theorem chunk_blocks_oversize_counterexample:
  "chunk_blocks [replicate 1800 (CHR ''9'')] = ['''', replicate 1800 (CHR ''9'') @ ''\<newline>'']
   \<and> length (replicate 1800 (CHR ''9'') @ ''\<newline>'') = 1801"
proof -
  have "\<exists>c\<in>set (replicate 1800 (CHR ''9'')). \<not> js_whitespace c"
    by (simp add: js_whitespace_def)
  then show ?thesis
    by (simp add: chunk_blocks_oversize)
qed

text \<open>
  C7 (amended): for every sequence of blocks that are each shorter than 1800 characters
  and hold a character that is not white space (as every block of a scan does), the
  chunks are the texts of consecutive, non-empty runs of the blocks, in order, each block
  in exactly one run and whole (each followed by a line feed); every chunk is at or under
  the budget of 1800 characters.
\<close>

theorem chunk_blocks_partition:
  assumes "\<forall>b\<in>set blocks. length b < 1800 \<and> (\<exists>c\<in>set b. \<not> js_whitespace c)"
  shows "\<exists>groups. concat groups = blocks
           \<and> (\<forall>g\<in>set groups. g \<noteq> [])
           \<and> chunk_blocks blocks = map joined groups
           \<and> (\<forall>c\<in>set (chunk_blocks blocks). length c \<le> 1800)"
proof -
  have small: "\<forall>b\<in>set blocks. length b < 1800"
    using assms by blast
  have "length (joined []) \<le> 1800"
    by (simp add: joined_def)
  from chunk_loop_groups [OF small this, of "[]"] obtain gs g' where
    r: "chunk_loop blocks [] [] = (map joined gs, joined g')"
    and c: "concat gs @ g' = blocks"
    and l: "\<forall>g\<in>set gs. g \<noteq> [] \<and> length (joined g) \<le> 1800"
    and l': "length (joined g') \<le> 1800" and n: "blocks \<noteq> [] \<longrightarrow> g' \<noteq> []"
    by (auto simp: joined_def)
  show ?thesis
  proof (cases "g' = []")
    case True
    then have "chunk_blocks blocks = map joined gs"
      using r by (simp add: chunk_blocks_def joined_def js_trim_def)
    then show ?thesis
      using c l True by auto
  next
    case False
    then obtain b where b: "b \<in> set g'"
      by (cases g') auto
    then have "b \<in> set blocks"
      using c by auto
    then obtain ch where "ch \<in> set b" "\<not> js_whitespace ch"
      using assms by blast
    then have "\<exists>ch\<in>set (joined g'). \<not> js_whitespace ch"
      using b by (auto simp: joined_def)
    then have "js_trim (joined g') \<noteq> []"
      by (rule js_trim_nonempty)
    then have "chunk_blocks blocks = map joined (gs @ [g'])"
      using r by (simp add: chunk_blocks_def)
    moreover have "concat (gs @ [g']) = blocks"
      using c by simp
    moreover have "\<forall>g\<in>set (gs @ [g']). g \<noteq> []"
      using l False by auto
    moreover have "\<forall>c\<in>set (map joined (gs @ [g'])). length c \<le> 1800"
      using l l' by auto
    ultimately show ?thesis
      by metis
  qed
qed

theorem chunk_blocks_partition_witness:
  "chunk_blocks [''1. a'', ''2. b''] = [''1. a\<newline>2. b\<newline>'']
   \<and> (\<exists>groups. concat groups = [''1. a'', ''2. b'']
         \<and> chunk_blocks [''1. a'', ''2. b''] = map joined groups
         \<and> list_all (\<lambda>c. length c \<le> 1800) (chunk_blocks [''1. a'', ''2. b'']))"
proof -
  have h: "\<forall>b\<in>set [''1. a'', ''2. b'']. length b < 1800 \<and> (\<exists>c\<in>set b. \<not> js_whitespace c)"
    by (simp add: js_whitespace_def)
  have e: "chunk_blocks [''1. a'', ''2. b''] = [''1. a\<newline>2. b\<newline>'']"
    by (simp add: chunk_blocks_def js_trim_def js_whitespace_def)
  from chunk_blocks_partition [OF h] obtain groups where
    "concat groups = [''1. a'', ''2. b'']"
    "chunk_blocks [''1. a'', ''2. b''] = map joined groups"
    "\<forall>c\<in>set (chunk_blocks [''1. a'', ''2. b'']). length c \<le> 1800"
    by blast
  then have "\<exists>groups. concat groups = [''1. a'', ''2. b'']
         \<and> chunk_blocks [''1. a'', ''2. b''] = map joined groups
         \<and> list_all (\<lambda>c. length c \<le> 1800) (chunk_blocks [''1. a'', ''2. b''])"
    unfolding list_all_iff by blast
  with e show ?thesis
    by blast
qed

section \<open>Properties of the scan queue\<close>

lemma run_in_turn_append:
  "run_in_turn (ts @ [t]) w =
     (case t (run_in_turn ts w) of
        (Fulfilled, w') \<Rightarrow> w'
      | (Rejected e, w') \<Rightarrow> console_error e w')"
  by (induction ts arbitrary: w) (auto split: prod.splits settled.splits)

text \<open>
  C9: for every sequence of tasks passed to \<open>enqueueScan\<close>, the chain runs the tasks one
  at a time in the order in which they were enqueued: each task starts from the state of
  the world left by the task before it, after that task's promise has settled, fulfilled
  or rejected. A rejection is caught and written to the console, the chain stays
  fulfilled, and the tasks enqueued after the failed one still run.
\<close>

theorem enqueueScan_serial:
  "foldl enqueueScan Promise_resolve tasks w = (Fulfilled, run_in_turn tasks w)"
proof (induction tasks rule: rev_induct)
  case Nil
  show ?case by (simp add: Promise_resolve_def)
next
  case (snoc t ts)
  then show ?case
    by (simp add: enqueueScan_def catch_promise_def then_promise_def run_in_turn_append
        split: prod.splits settled.splits)
qed


theorem enqueueScan_serial_witness:
  "foldl enqueueScan Promise_resolve
     [\<lambda>w. (Rejected TypeError, w), \<lambda>w. (Fulfilled, w\<lparr>console := console w @ [CookieNotSet]\<rparr>)]
     \<lparr>console = []\<rparr>
   = (Fulfilled, \<lparr>console = [TypeError, CookieNotSet]\<rparr>)"
  using enqueueScan_serial
    [of "[\<lambda>w. (Rejected TypeError, w), \<lambda>w. (Fulfilled, w\<lparr>console := console w @ [CookieNotSet]\<rparr>)]"
        "\<lparr>console = []\<rparr>"]
  by (simp add: console_error_def)

end
